theory Spec2Isabelle
  imports Complex_Main "HOL-Library.Sublist"
begin

text \<open>
  A model of the physics core of \<open>src/utils/softBodySystem.ts\<close>: the interaction router
  (\<open>handleInteraction3D\<close>, \<open>checkSnapping\<close>, \<open>handleInteraction\<close>), the point
  manipulators (\<open>crumple\<close>, \<open>fold\<close>) and the tick (\<open>update\<close>). The file declares the
  class twice; the model follows the first declaration, the one with the collider radius
  and the dragon.
\<close>

section \<open>Numbers\<close>

text \<open>
  Every numeric field of the simulation is a JavaScript \<open>number\<close>. The model keeps the
  special values that the arithmetic of the source can produce: a number is a finite real,
  one of the two infinities, or NaN. Rounding is not modelled (finite results are exact
  reals), and the two zeros are identified; the only divisors that can be zero in the
  modelled code are results of \<open>Math.sqrt\<close>, which are never the negative zero, so a
  finite number divided by zero takes the sign of the numerator.
\<close>

datatype num = Fin real | PInf | NInf | NaN

instantiation num :: "{plus, minus, uminus, times, inverse, abs, ord}"
begin

fun uminus_num :: "num \<Rightarrow> num" where
  "uminus_num (Fin a) = Fin (- a)"
| "uminus_num PInf = NInf"
| "uminus_num NInf = PInf"
| "uminus_num NaN = NaN"

fun plus_num :: "num \<Rightarrow> num \<Rightarrow> num" where
  "plus_num NaN b = NaN"
| "plus_num a NaN = NaN"
| "plus_num (Fin a) (Fin b) = Fin (a + b)"
| "plus_num PInf NInf = NaN"
| "plus_num NInf PInf = NaN"
| "plus_num PInf b = PInf"
| "plus_num a PInf = PInf"
| "plus_num NInf b = NInf"
| "plus_num a NInf = NInf"

definition minus_num :: "num \<Rightarrow> num \<Rightarrow> num" where
  "minus_num a b = a + (- b)"

fun times_num :: "num \<Rightarrow> num \<Rightarrow> num" where
  "times_num NaN b = NaN"
| "times_num a NaN = NaN"
| "times_num (Fin a) (Fin b) = Fin (a * b)"
| "times_num (Fin a) PInf = (if 0 < a then PInf else if a < 0 then NInf else NaN)"
| "times_num (Fin a) NInf = (if 0 < a then NInf else if a < 0 then PInf else NaN)"
| "times_num PInf (Fin b) = (if 0 < b then PInf else if b < 0 then NInf else NaN)"
| "times_num NInf (Fin b) = (if 0 < b then NInf else if b < 0 then PInf else NaN)"
| "times_num PInf PInf = PInf"
| "times_num PInf NInf = NInf"
| "times_num NInf PInf = NInf"
| "times_num NInf NInf = PInf"

fun divide_num :: "num \<Rightarrow> num \<Rightarrow> num" where
  "divide_num NaN b = NaN"
| "divide_num a NaN = NaN"
| "divide_num (Fin a) (Fin b) =
     (if b \<noteq> 0 then Fin (a / b)
      else if 0 < a then PInf else if a < 0 then NInf else NaN)"
| "divide_num (Fin a) PInf = Fin 0"
| "divide_num (Fin a) NInf = Fin 0"
| "divide_num PInf (Fin b) = (if 0 \<le> b then PInf else NInf)"
| "divide_num NInf (Fin b) = (if 0 \<le> b then NInf else PInf)"
| "divide_num PInf PInf = NaN"
| "divide_num PInf NInf = NaN"
| "divide_num NInf PInf = NaN"
| "divide_num NInf NInf = NaN"

definition inverse_num :: "num \<Rightarrow> num" where
  "inverse_num a = divide (Fin 1) a"

fun abs_num :: "num \<Rightarrow> num" where
  "abs_num (Fin a) = Fin \<bar>a\<bar>"
| "abs_num PInf = PInf"
| "abs_num NInf = PInf"
| "abs_num NaN = NaN"

fun less_num :: "num \<Rightarrow> num \<Rightarrow> bool" where
  "less_num NaN b = False"
| "less_num a NaN = False"
| "less_num (Fin a) (Fin b) = (a < b)"
| "less_num (Fin a) PInf = True"
| "less_num NInf (Fin b) = True"
| "less_num NInf PInf = True"
| "less_num a NInf = False"
| "less_num PInf b = False"

fun less_eq_num :: "num \<Rightarrow> num \<Rightarrow> bool" where
  "less_eq_num NaN b = False"
| "less_eq_num a NaN = False"
| "less_eq_num (Fin a) (Fin b) = (a \<le> b)"
| "less_eq_num a PInf = True"
| "less_eq_num NInf b = True"
| "less_eq_num (Fin a) NInf = False"
| "less_eq_num PInf b = False"

instance ..

end

text \<open>\<open>Math.sqrt\<close>, \<open>Math.sin\<close>, \<open>Math.cos\<close> and \<open>Math.max\<close>.\<close>

fun Math_sqrt :: "num \<Rightarrow> num" where
  "Math_sqrt (Fin a) = (if a < 0 then NaN else Fin (sqrt a))"
| "Math_sqrt PInf = PInf"
| "Math_sqrt NInf = NaN"
| "Math_sqrt NaN = NaN"

fun Math_sin :: "num \<Rightarrow> num" where
  "Math_sin (Fin a) = Fin (sin a)"
| "Math_sin a = NaN"

fun Math_cos :: "num \<Rightarrow> num" where
  "Math_cos (Fin a) = Fin (cos a)"
| "Math_cos a = NaN"

fun Math_max :: "num \<Rightarrow> num \<Rightarrow> num" where
  "Math_max NaN b = NaN"
| "Math_max a NaN = NaN"
| "Math_max a b = (if a < b then b else a)"

definition Math_max3 :: "num \<Rightarrow> num \<Rightarrow> num \<Rightarrow> num" where
  "Math_max3 a b c = Math_max (Math_max a b) c"

section \<open>Data model\<close>

record Vector3 =
  vx :: num
  vy :: num
  vz :: num

record Quaternion =
  qx :: num
  qy :: num
  qz :: num
  qw :: num

text \<open>
  Points are shared objects: an object's point list, the two ends of a stick and an
  interaction spring all refer to the same point. They live in a store, and everything
  else holds references into it. The type declarations are not part of the sources at
  hand; the records have the fields that the modelled functions and the spawn operations
  use. Fields that only the renderer or \<open>updateHorns\<close> read (radius, colours, thickness,
  texture, mesh flag, growth and horn configuration) are left out of points, sticks and
  soft bodies.
\<close>

type_synonym ref = nat

record Point =
  px :: num
  py :: num
  oldX :: num
  oldY :: num
  isPinned :: bool
  pu :: num
  pv :: num

type_synonym store = "ref \<Rightarrow> Point"

record Stick =
  p0 :: ref
  p1 :: ref
  length_stick :: num
  isHidden :: bool

record SoftBodyObject =
  id_object :: string
  type_object :: string
  points :: "ref list"
  sticks :: "Stick list"

record DragonConfig =
  jawAngle :: num
  neckPhase :: num
  wingPhase :: num
  eyeColor :: string
  scale_dragon :: num

record RigidBody3D =
  id_body :: string
  type_body :: string
  position :: Vector3
  rotation :: Quaternion
  scale :: Vector3
  velocity :: Vector3
  angularVelocity :: Vector3
  vertices :: "Vector3 list"
  faces :: "(nat list \<times> string) list"
  isHeld :: bool
  snapTarget :: "string option"
  snapTimer :: num
  color :: string
  glow :: num
  dragonConfig :: "DragonConfig option"

record MouseSpring =
  point :: ref
  anchorX :: num
  anchorY :: num

record HeldObject =
  bodyId :: string
  offset :: Vector3
  initialHandRot :: num
  initialObjRot :: Quaternion

text \<open>
  The simulation context. \<open>mouseSprings\<close> is a JavaScript \<open>Map\<close> that \<open>update\<close>
  walks in insertion order, so it is an association list with one entry per key;
  \<open>heldObjects\<close> is only ever looked up by key. Hand identifiers are the indices of the
  detected hands. \<open>solverIterations\<close> counts loop iterations.
\<close>

record SoftBodySystem =
  objects :: "SoftBodyObject list"
  rigidBodies :: "RigidBody3D list"
  mouseSprings :: "(nat \<times> MouseSpring) list"
  heldObjects :: "nat \<rightharpoonup> HeldObject"
  gravity :: num
  drag :: num
  groundFriction :: num
  solverIterations :: nat
  stiffness :: num
  breakingThreshold :: num
  time :: num
  heap :: store

section \<open>Math helpers\<close>

definition vAdd :: "Vector3 \<Rightarrow> Vector3 \<Rightarrow> Vector3" where
  "vAdd a b = \<lparr>vx = vx a + vx b, vy = vy a + vy b, vz = vz a + vz b\<rparr>"

definition vScale :: "Vector3 \<Rightarrow> num \<Rightarrow> Vector3" where
  "vScale a s = \<lparr>vx = vx a * s, vy = vy a * s, vz = vz a * s\<rparr>"

definition qMult :: "Quaternion \<Rightarrow> Quaternion \<Rightarrow> Quaternion" where
  "qMult q1 q2 =
     \<lparr>qx = qw q1 * qx q2 + qx q1 * qw q2 + qy q1 * qz q2 - qz q1 * qy q2,
      qy = qw q1 * qy q2 - qx q1 * qz q2 + qy q1 * qw q2 + qz q1 * qx q2,
      qz = qw q1 * qz q2 + qx q1 * qy q2 - qy q1 * qx q2 + qz q1 * qw q2,
      qw = qw q1 * qw q2 - qx q1 * qx q2 - qy q1 * qy q2 - qz q1 * qz q2\<rparr>"

definition qFromAxisAngle :: "Vector3 \<Rightarrow> num \<Rightarrow> Quaternion" where
  "qFromAxisAngle axis angle =
     (let halfAngle = angle / Fin 2;
          s = Math_sin halfAngle
      in \<lparr>qx = vx axis * s, qy = vy axis * s, qz = vz axis * s, qw = Math_cos halfAngle\<rparr>)"

text \<open>\<open>Array.prototype.find\<close>, returning the position of the first match.\<close>

fun findIndex :: "('a \<Rightarrow> bool) \<Rightarrow> 'a list \<Rightarrow> nat option" where
  "findIndex P [] = None"
| "findIndex P (b # bs) = (if P b then Some 0 else map_option Suc (findIndex P bs))"

section \<open>Grabbing rigid bodies\<close>

text \<open>The hit test of \<open>handleInteraction3D\<close>: distance on the screen plane and the
  collider radius derived from the body's scale.\<close>

definition screenDist :: "RigidBody3D \<Rightarrow> num \<Rightarrow> num \<Rightarrow> num" where
  "screenDist body x y =
     (let dx = vx (position body) - x;
          dy = vy (position body) - y
      in Math_sqrt (dx * dx + dy * dy))"

definition colliderRadius :: "RigidBody3D \<Rightarrow> num" where
  "colliderRadius body =
     (let size = Math_max3 (vx (scale body)) (vy (scale body)) (vz (scale body)) * Fin 60
      in size * Fin 0.7 * Fin 1.3)"

definition resetGlow :: "RigidBody3D \<Rightarrow> RigidBody3D" where
  "resetGlow b = (if \<not> isHeld b \<and> glow b < Fin 0.5 then b\<lparr>glow := Fin 0\<rparr> else b)"

text \<open>The nearest-body scan after its first \<open>n\<close> iterations: the closest distance so
  far and the position of the body it belongs to.\<close>

primrec grabScan :: "num \<Rightarrow> num \<Rightarrow> RigidBody3D list \<Rightarrow> nat \<Rightarrow> num \<times> nat option" where
  "grabScan x y bodies 0 = (PInf, None)"
| "grabScan x y bodies (Suc n) =
     (let (closestDist, target) = grabScan x y bodies n;
          body = bodies ! n;
          dist = screenDist body x y
      in if dist < colliderRadius body \<and> dist < closestDist
         then (dist, Some n) else (closestDist, target))"

text \<open>The test that \<open>checkSnapping\<close> applies to each other body; the loop stops at the
  first body that passes it.\<close>

definition snapMatch :: "RigidBody3D \<Rightarrow> RigidBody3D \<Rightarrow> bool" where
  "snapMatch active other =
     (if id_body other = id_body active then False
      else
        (let threshold = Fin 50;
             dx = \<bar>vx (position active) - vx (position other)\<bar>;
             dz = \<bar>vz (position active) - vz (position other)\<bar>
         in if dx < threshold \<and> dz < threshold
            then (let dy = vy (position other) - vy (position active);
                      expectedDist = Fin 60
                  in dy > Fin 0 \<and> dy < expectedDist + Fin 40)
            else False))"

definition checkSnapping :: "RigidBody3D list \<Rightarrow> nat \<Rightarrow> RigidBody3D list" where
  "checkSnapping bodies a =
     (let active = bodies ! a
      in case findIndex (snapMatch active) bodies of
           None \<Rightarrow> bodies
         | Some j \<Rightarrow>
             (let other = bodies ! j;
                  snapped = active
                    \<lparr>snapTarget := Some (id_body other),
                     position := \<lparr>vx = vx (position other),
                                  vy = vy (position other) - Fin 60,
                                  vz = vz (position other)\<rparr>,
                     rotation := rotation other,
                     velocity := \<lparr>vx = Fin 0, vy = Fin 0, vz = Fin 0\<rparr>,
                     glow := Fin 1,
                     snapTimer := Fin 20\<rparr>
              in (bodies[a := snapped])[j := other\<lparr>glow := Fin 0.5\<rparr>]))"

definition hoverGlow :: "num \<Rightarrow> num \<Rightarrow> RigidBody3D \<Rightarrow> RigidBody3D" where
  "hoverGlow x y body =
     (if screenDist body x y < colliderRadius body
      then body\<lparr>glow := Math_max (glow body) (Fin 0.4)\<rparr> else body)"

definition grabBody :: "RigidBody3D \<Rightarrow> RigidBody3D" where
  "grabBody target = target\<lparr>isHeld := True, snapTarget := None, glow := Fin 1\<rparr>"

definition dragBody :: "HeldObject \<Rightarrow> num \<Rightarrow> num \<Rightarrow> num \<Rightarrow> num \<Rightarrow> RigidBody3D \<Rightarrow> RigidBody3D" where
  "dragBody hold x y z rotationAngle body =
     (let tx = x + vx (offset hold);
          ty = y + vy (offset hold);
          tz = z + vz (offset hold);
          pos = position body;
          deltaRot = rotationAngle - initialHandRot hold;
          qY = qFromAxisAngle \<lparr>vx = Fin 0, vy = Fin 1, vz = Fin 0\<rparr> (deltaRot * Fin 0.15)
      in body
           \<lparr>glow := Fin 1,
            position := \<lparr>vx = vx pos + (tx - vx pos) * Fin 0.4,
                         vy = vy pos + (ty - vy pos) * Fin 0.4,
                         vz = vz pos + (tz - vz pos) * Fin 0.4\<rparr>,
            velocity := \<lparr>vx = Fin 0, vy = Fin 0, vz = Fin 0\<rparr>,
            rotation := qMult (rotation body) qY\<rparr>)"

definition handleInteraction3D ::
  "SoftBodySystem \<Rightarrow> nat \<Rightarrow> num \<Rightarrow> num \<Rightarrow> num \<Rightarrow> bool \<Rightarrow> num \<Rightarrow> SoftBodySystem" where
  "handleInteraction3D s handId x y z isGrabbing rotationAngle =
     (let bodies = map resetGlow (rigidBodies s)
      in if isGrabbing then
           (case heldObjects s handId of
              None \<Rightarrow>
                (case snd (grabScan x y bodies (length bodies)) of
                   None \<Rightarrow> s\<lparr>rigidBodies := bodies\<rparr>
                 | Some t \<Rightarrow>
                     (let target = bodies ! t
                      in s\<lparr>rigidBodies := bodies[t := grabBody target],
                           heldObjects := (heldObjects s)(handId \<mapsto>
                             \<lparr>bodyId = id_body target,
                              offset = \<lparr>vx = vx (position target) - x,
                                        vy = vy (position target) - y,
                                        vz = vz (position target) - z\<rparr>,
                              initialHandRot = rotationAngle,
                              initialObjRot = rotation target\<rparr>)\<rparr>))
            | Some hold \<Rightarrow>
                (case findIndex (\<lambda>b. id_body b = bodyId hold) bodies of
                   None \<Rightarrow> s\<lparr>rigidBodies := bodies\<rparr>
                 | Some i \<Rightarrow>
                     s\<lparr>rigidBodies := bodies[i := dragBody hold x y z rotationAngle (bodies ! i)],
                       heldObjects := (heldObjects s)(handId \<mapsto>
                         hold\<lparr>initialHandRot := rotationAngle\<rparr>)\<rparr>))
         else
           (case heldObjects s handId of
              None \<Rightarrow> s\<lparr>rigidBodies := map (hoverGlow x y) bodies\<rparr>
            | Some hold \<Rightarrow>
                (let released =
                       (case findIndex (\<lambda>b. id_body b = bodyId hold) bodies of
                          None \<Rightarrow> bodies
                        | Some i \<Rightarrow> checkSnapping (bodies[i := (bodies ! i)\<lparr>isHeld := False\<rparr>]) i)
                 in s\<lparr>rigidBodies := map (hoverGlow x y) released,
                      heldObjects := (heldObjects s)(handId := None)\<rparr>)))"

section \<open>Springs on soft-body points\<close>

text \<open>The nearest-point scan of \<open>handleInteraction\<close>: the running minimum distance and
  the candidate point, through the points of one object and through all objects.\<close>

primrec scanPoints :: "store \<Rightarrow> num \<Rightarrow> num \<Rightarrow> ref list \<Rightarrow> num \<times> ref option \<Rightarrow> num \<times> ref option" where
  "scanPoints h x y [] acc = acc"
| "scanPoints h x y (p # ps) acc =
     (let dx = px (h p) - x;
          dy = py (h p) - y;
          dist = Math_sqrt (dx * dx + dy * dy)
      in scanPoints h x y ps (if dist < fst acc then (dist, Some p) else acc))"

primrec scanObjects ::
  "store \<Rightarrow> num \<Rightarrow> num \<Rightarrow> SoftBodyObject list \<Rightarrow> num \<times> ref option \<Rightarrow> num \<times> ref option" where
  "scanObjects h x y [] acc = acc"
| "scanObjects h x y (obj # objs) acc =
     (if type_object obj = ''devil_horn'' then scanObjects h x y objs acc
      else scanObjects h x y objs (scanPoints h x y (points obj) acc))"

definition setAnchor :: "nat \<Rightarrow> num \<Rightarrow> num \<Rightarrow> (nat \<times> MouseSpring) list \<Rightarrow> (nat \<times> MouseSpring) list" where
  "setAnchor handId x y springs =
     map (\<lambda>(k, spring). if k = handId then (k, spring\<lparr>anchorX := x, anchorY := y\<rparr>)
                          else (k, spring)) springs"

definition handleInteraction :: "SoftBodySystem \<Rightarrow> nat \<Rightarrow> num \<Rightarrow> num \<Rightarrow> bool \<Rightarrow> SoftBodySystem" where
  "handleInteraction s handId x y isPinching =
     (if isPinching then
        (let springs =
               (case map_of (mouseSprings s) handId of
                  Some spring \<Rightarrow> mouseSprings s
                | None \<Rightarrow>
                    (case snd (scanObjects (heap s) x y (objects s) (Fin 80, None)) of
                       None \<Rightarrow> mouseSprings s
                     | Some candidate \<Rightarrow>
                         mouseSprings s @
                           [(handId, \<lparr>point = candidate, anchorX = x, anchorY = y\<rparr>)]))
         in s\<lparr>mouseSprings := setAnchor handId x y springs\<rparr>)
      else s\<lparr>mouseSprings := filter (\<lambda>(k, spring). k \<noteq> handId) (mouseSprings s)\<rparr>)"

section \<open>Direct point manipulators\<close>

text \<open>\<open>crumple\<close> draws two random numbers for every point inside the radius. The
  numbers that \<open>Math.random\<close> returns during the call are the sequence \<open>rnd\<close>; the
  loops carry the count of numbers drawn so far.\<close>

definition crumplePoint :: "num \<Rightarrow> num \<Rightarrow> num \<Rightarrow> num \<Rightarrow> real \<Rightarrow> real \<Rightarrow> Point \<Rightarrow> Point" where
  "crumplePoint x y radius intensity r1 r2 p =
     (let dx = px p - x;
          dy = py p - y;
          distSq = dx * dx + dy * dy;
          force = (Fin 1 - Math_sqrt distSq / radius) * intensity;
          x1 = px p + (Fin r1 - Fin 0.5) * Fin 25 * force;
          y1 = py p + (Fin r2 - Fin 0.5) * Fin 25 * force
      in p\<lparr>px := x1 - dx * Fin 0.1 * force, py := y1 - dy * Fin 0.1 * force\<rparr>)"

primrec crumplePoints ::
  "(nat \<Rightarrow> real) \<Rightarrow> num \<Rightarrow> num \<Rightarrow> num \<Rightarrow> num \<Rightarrow> ref list \<Rightarrow> store \<times> nat \<Rightarrow> store \<times> nat" where
  "crumplePoints rnd x y radius intensity [] st = st"
| "crumplePoints rnd x y radius intensity (r # rs) st =
     (let h = fst st; k = snd st;
          p = h r;
          dx = px p - x;
          dy = py p - y;
          distSq = dx * dx + dy * dy
      in if distSq < radius * radius
         then crumplePoints rnd x y radius intensity rs
                (h(r := crumplePoint x y radius intensity (rnd k) (rnd (Suc k)) p), Suc (Suc k))
         else crumplePoints rnd x y radius intensity rs st)"

primrec crumpleObjects ::
  "(nat \<Rightarrow> real) \<Rightarrow> num \<Rightarrow> num \<Rightarrow> num \<Rightarrow> num \<Rightarrow> SoftBodyObject list \<Rightarrow> store \<times> nat \<Rightarrow> store \<times> nat" where
  "crumpleObjects rnd x y radius intensity [] st = st"
| "crumpleObjects rnd x y radius intensity (obj # objs) st =
     (if type_object obj = ''devil_horn'' then crumpleObjects rnd x y radius intensity objs st
      else crumpleObjects rnd x y radius intensity objs
             (crumplePoints rnd x y radius intensity (points obj) st))"

definition crumple :: "(nat \<Rightarrow> real) \<Rightarrow> SoftBodySystem \<Rightarrow> num \<Rightarrow> num \<Rightarrow> num \<Rightarrow> num \<Rightarrow> SoftBodySystem" where
  "crumple rnd s x y radius intensity =
     s\<lparr>heap := fst (crumpleObjects rnd x y radius intensity (objects s) (heap s, 0))\<rparr>"

definition foldPoint :: "num \<Rightarrow> num \<Rightarrow> num \<Rightarrow> num \<times> num \<Rightarrow> Point \<Rightarrow> Point" where
  "foldPoint x y radius vel p =
     (let dx = px p - x;
          dy = py p - y;
          dist = Math_sqrt (dx * dx + dy * dy)
      in if dist < radius
         then (let force = Fin 1 - dist / radius;
                   x1 = px p - dx * Fin 0.15 * force;
                   y1 = py p - dy * Fin 0.15 * force
               in p\<lparr>px := x1 + fst vel * Fin 0.1 * force,
                    py := y1 + snd vel * Fin 0.1 * force\<rparr>)
         else p)"

primrec foldPoints :: "num \<Rightarrow> num \<Rightarrow> num \<Rightarrow> num \<times> num \<Rightarrow> ref list \<Rightarrow> store \<Rightarrow> store" where
  "foldPoints x y radius vel [] h = h"
| "foldPoints x y radius vel (r # rs) h =
     foldPoints x y radius vel rs (h(r := foldPoint x y radius vel (h r)))"

primrec foldObjects :: "num \<Rightarrow> num \<Rightarrow> num \<Rightarrow> num \<times> num \<Rightarrow> SoftBodyObject list \<Rightarrow> store \<Rightarrow> store" where
  "foldObjects x y radius vel [] h = h"
| "foldObjects x y radius vel (obj # objs) h =
     (if type_object obj = ''devil_horn'' then foldObjects x y radius vel objs h
      else foldObjects x y radius vel objs (foldPoints x y radius vel (points obj) h))"

definition fold_sys :: "SoftBodySystem \<Rightarrow> num \<Rightarrow> num \<Rightarrow> num \<Rightarrow> num \<times> num \<Rightarrow> SoftBodySystem" where
  "fold_sys s x y radius vel = s\<lparr>heap := foldObjects x y radius vel (objects s) (heap s)\<rparr>"

section \<open>The simulation tick\<close>

subsection \<open>Soft bodies\<close>

definition integratePoint :: "SoftBodySystem \<Rightarrow> num \<Rightarrow> num \<Rightarrow> Point \<Rightarrow> Point" where
  "integratePoint s width height p =
     (if isPinned p then p
      else
        (let velX = (px p - oldX p) * drag s;
             velY = (py p - oldY p) * drag s;
             a = p\<lparr>oldX := px p, oldY := py p, px := px p + velX, py := py p + (velY + gravity s)\<rparr>;
             b = (if py a > height - Fin 10
                  then a\<lparr>py := height - Fin 10,
                        oldY := (height - Fin 10) + velY * groundFriction s\<rparr> else a);
             c = (if px b < Fin 10
                  then b\<lparr>px := Fin 10, oldX := Fin 10 + velX * groundFriction s\<rparr> else b);
             d = (if px c > width - Fin 10
                  then c\<lparr>px := width - Fin 10,
                        oldX := (width - Fin 10) + velX * groundFriction s\<rparr> else c)
         in if py d < Fin (- 300) then d\<lparr>py := Fin (- 300)\<rparr> else d))"

primrec integratePoints :: "SoftBodySystem \<Rightarrow> num \<Rightarrow> num \<Rightarrow> ref list \<Rightarrow> store \<Rightarrow> store" where
  "integratePoints s width height [] h = h"
| "integratePoints s width height (r # rs) h =
     integratePoints s width height rs (h(r := integratePoint s width height (h r)))"

text \<open>One visit of the relaxation loop, to the stick at position \<open>sIdx\<close>: the stick is
  spliced out when it is overstretched, and corrected otherwise.\<close>

definition relaxStick :: "SoftBodySystem \<Rightarrow> nat \<Rightarrow> Stick list \<times> store \<Rightarrow> Stick list \<times> store" where
  "relaxStick s sIdx st =
     (let stks = fst st; h = snd st;
          stick = stks ! sIdx;
          dx = px (h (p1 stick)) - px (h (p0 stick));
          dy = py (h (p1 stick)) - py (h (p0 stick));
          dist = Math_sqrt (dx * dx + dy * dy)
      in if dist > length_stick stick * breakingThreshold s
         then (take sIdx stks @ drop (Suc sIdx) stks, h)
         else
           (let diff = length_stick stick - dist;
                percent = (diff / dist) / Fin 2 * stiffness s;
                offX = dx * percent;
                offY = dy * percent;
                h1 = (if \<not> isPinned (h (p0 stick))
                      then h(p0 stick := (h (p0 stick))
                             \<lparr>px := px (h (p0 stick)) - offX, py := py (h (p0 stick)) - offY\<rparr>)
                      else h);
                h2 = (if \<not> isPinned (h1 (p1 stick))
                      then h1(p1 stick := (h1 (p1 stick))
                             \<lparr>px := px (h1 (p1 stick)) + offX, py := py (h1 (p1 stick)) + offY\<rparr>)
                      else h1)
            in (stks, h2)))"

text \<open>One pass visits the positions from the last down to 0: \<open>relaxPass s n\<close> is the
  rest of a pass that has position \<open>n - 1\<close> to visit next.\<close>

primrec relaxPass :: "SoftBodySystem \<Rightarrow> nat \<Rightarrow> Stick list \<times> store \<Rightarrow> Stick list \<times> store" where
  "relaxPass s 0 st = st"
| "relaxPass s (Suc sIdx) st = relaxPass s sIdx (relaxStick s sIdx st)"

primrec relaxIterations :: "SoftBodySystem \<Rightarrow> nat \<Rightarrow> Stick list \<times> store \<Rightarrow> Stick list \<times> store" where
  "relaxIterations s 0 st = st"
| "relaxIterations s (Suc i) st =
     relaxIterations s i (relaxPass s (length (fst st)) st)"

primrec updateObjects ::
  "SoftBodySystem \<Rightarrow> num \<Rightarrow> num \<Rightarrow> SoftBodyObject list \<Rightarrow> store \<Rightarrow> SoftBodyObject list \<times> store" where
  "updateObjects s width height [] h = ([], h)"
| "updateObjects s width height (obj # objs) h =
     (if type_object obj = ''devil_horn''
      then (let (objs', h') = updateObjects s width height objs h in (obj # objs', h'))
      else
        (let h1 = integratePoints s width height (points obj) h;
             (stks, h2) = relaxIterations s (solverIterations s) (sticks obj, h1);
             (objs', h') = updateObjects s width height objs h2
         in (obj\<lparr>sticks := stks\<rparr> # objs', h')))"

primrec applySprings :: "(nat \<times> MouseSpring) list \<Rightarrow> store \<Rightarrow> store" where
  "applySprings [] h = h"
| "applySprings (e # es) h =
     (let spring = snd e;
          p = h (point spring);
          dx = anchorX spring - px p;
          dy = anchorY spring - py p
      in applySprings es
           (h(point spring := p\<lparr>px := px p + dx * Fin 0.2, py := py p + dy * Fin 0.2\<rparr>)))"

subsection \<open>Rigid bodies\<close>

definition animateDragon :: "num \<Rightarrow> RigidBody3D \<Rightarrow> RigidBody3D" where
  "animateDragon t body =
     (if type_body body = ''dragon'' then
        (case dragonConfig body of
           None \<Rightarrow> body
         | Some c \<Rightarrow>
             body\<lparr>dragonConfig :=
               Some (c\<lparr>neckPhase := t, jawAngle := Math_sin (t * Fin 2) * Fin 0.2 + Fin 0.2\<rparr>)\<rparr>)
      else body)"

definition decayGlow :: "RigidBody3D \<Rightarrow> RigidBody3D" where
  "decayGlow body = (if glow body > Fin 0 then body\<lparr>glow := glow body - Fin 0.05\<rparr> else body)"

definition freeFall :: "SoftBodySystem \<Rightarrow> num \<Rightarrow> RigidBody3D \<Rightarrow> RigidBody3D" where
  "freeFall s height body =
     (let floorY = height;
          cubeHalf = Fin 30;
          v1 = (velocity body)\<lparr>vy := vy (velocity body) + gravity s\<rparr>;
          pos1 = vAdd (position body) v1
      in if vy pos1 > floorY - cubeHalf
         then body\<lparr>position := pos1\<lparr>vy := floorY - cubeHalf\<rparr>,
                   velocity := vScale \<lparr>vx = vx v1 * groundFriction s,
                                       vy = vy v1 * Fin (- 0.4),
                                       vz = vz v1 * groundFriction s\<rparr> (Fin 0.98)\<rparr>
         else body\<lparr>position := pos1, velocity := vScale v1 (Fin 0.98)\<rparr>)"

text \<open>An identifier is tested for truth before it is looked up: \<open>null\<close> and the empty
  string both fail the test.\<close>

definition updateBody :: "SoftBodySystem \<Rightarrow> num \<Rightarrow> num \<Rightarrow> RigidBody3D list \<Rightarrow> nat \<Rightarrow> RigidBody3D list" where
  "updateBody s t height bodies n =
     (let body = decayGlow (animateDragon t (bodies ! n));
          bodies1 = bodies[n := body]
      in if isHeld body then bodies1
         else if snapTimer body > Fin 0
         then bodies[n := body\<lparr>snapTimer := snapTimer body - Fin 1\<rparr>]
         else
           (case snapTarget body of
              None \<Rightarrow> bodies[n := freeFall s height body]
            | Some tid \<Rightarrow>
                if tid = [] then bodies[n := freeFall s height body]
                else
                  (case findIndex (\<lambda>b. id_body b = tid) bodies1 of
                     Some j \<Rightarrow>
                       (let target = bodies1 ! j
                        in bodies[n := body
                             \<lparr>position := \<lparr>vx = vx (position target),
                                           vy = vy (position target) - Fin 60,
                                           vz = vz (position target)\<rparr>,
                              rotation := rotation target\<rparr>])
                   | None \<Rightarrow> bodies[n := freeFall s height (body\<lparr>snapTarget := None\<rparr>)])))"

text \<open>The body loop after its first \<open>n\<close> iterations.\<close>

primrec updateBodies :: "SoftBodySystem \<Rightarrow> num \<Rightarrow> num \<Rightarrow> nat \<Rightarrow> RigidBody3D list \<Rightarrow> RigidBody3D list" where
  "updateBodies s t height 0 bodies = bodies"
| "updateBodies s t height (Suc n) bodies =
     updateBody s t height (updateBodies s t height n bodies) n"

definition update :: "SoftBodySystem \<Rightarrow> num \<Rightarrow> num \<Rightarrow> SoftBodySystem" where
  "update s width height =
     (let t = time s + Fin 0.05;
          (objs, h1) = updateObjects s width height (objects s) (heap s);
          h2 = applySprings (mouseSprings s) h1;
          bodies = updateBodies s t height (length (rigidBodies s)) (rigidBodies s)
      in s\<lparr>time := t, objects := objs, heap := h2, rigidBodies := bodies\<rparr>)"

section \<open>Auxiliary notions for the properties\<close>

text \<open>A sequence of ticks, each with its own viewport size.\<close>

definition updates :: "SoftBodySystem \<Rightarrow> (num \<times> num) list \<Rightarrow> SoftBodySystem" where
  "updates s sizes = foldl (\<lambda>s' (width, height). update s' width height) s sizes"

text \<open>Two stores agree on which points are pinned and on every pinned point.\<close>

definition pinnedFrame :: "store \<Rightarrow> store \<Rightarrow> bool" where
  "pinnedFrame h h' \<longleftrightarrow>
     (\<forall>r. isPinned (h' r) = isPinned (h r)) \<and> (\<forall>r. isPinned (h r) \<longrightarrow> h' r = h r)"

text \<open>The points that \<open>crumple\<close> and \<open>fold\<close> visit, in the order of the visits: the
  points of every object that is not a devil horn.\<close>

definition visitedPoints :: "SoftBodyObject list \<Rightarrow> ref list" where
  "visitedPoints objs =
     concat (map points (filter (\<lambda>obj. type_object obj \<noteq> ''devil_horn'') objs))"

text \<open>An object that has lost sticks and is otherwise the same.\<close>

definition sticksOnlyRemoved :: "SoftBodyObject \<Rightarrow> SoftBodyObject \<Rightarrow> bool" where
  "sticksOnlyRemoved before after \<longleftrightarrow>
     subseq (sticks after) (sticks before) \<and> id_object after = id_object before \<and>
     type_object after = type_object before \<and> points after = points before"

text \<open>The operations of the context that are modelled here, as data, and runs of them.
  Spawning, \<open>reset\<close> and \<open>updateHorns\<close> are not among them.\<close>

datatype operation =
    Update num num
  | HandleInteraction nat num num bool
  | HandleInteraction3D nat num num num bool num
  | Crumple "nat \<Rightarrow> real" num num num num
  | Fold num num num "num \<times> num"

fun perform :: "SoftBodySystem \<Rightarrow> operation \<Rightarrow> SoftBodySystem" where
  "perform s (Update width height) = update s width height"
| "perform s (HandleInteraction handId x y isPinching) = handleInteraction s handId x y isPinching"
| "perform s (HandleInteraction3D handId x y z isGrabbing rotationAngle) =
     handleInteraction3D s handId x y z isGrabbing rotationAngle"
| "perform s (Crumple rnd x y radius intensity) = crumple rnd s x y radius intensity"
| "perform s (Fold x y radius vel) = fold_sys s x y radius vel"

definition performAll :: "SoftBodySystem \<Rightarrow> operation list \<Rightarrow> SoftBodySystem" where
  "performAll s ops = foldl perform s ops"

text \<open>The tick reaches the relaxation of object \<open>i\<close> with that object's sticks and
  with the store as the earlier objects and the integration of its own points have left
  it.\<close>

definition relaxStart :: "SoftBodySystem \<Rightarrow> num \<Rightarrow> num \<Rightarrow> nat \<Rightarrow> Stick list \<times> store" where
  "relaxStart s width height i =
     (sticks (objects s ! i),
      integratePoints s width height (points (objects s ! i))
        (snd (updateObjects s width height (take i (objects s)) (heap s))))"

text \<open>The first \<open>k\<close> visits of a pass over a list of \<open>n\<close> sticks: the positions
  \<open>n - 1\<close> down to \<open>n - k\<close>.\<close>

primrec relaxDown :: "SoftBodySystem \<Rightarrow> nat \<Rightarrow> nat \<Rightarrow> Stick list \<times> store \<Rightarrow> Stick list \<times> store" where
  "relaxDown s 0 n st = st"
| "relaxDown s (Suc k) n st = relaxDown s k (n - 1) (relaxStick s (n - 1) st)"

section \<open>Example configurations\<close>

text \<open>The point literal of the spawn operations: at rest at \<open>(x, y)\<close>.\<close>

definition newPoint :: "num \<Rightarrow> num \<Rightarrow> bool \<Rightarrow> Point" where
  "newPoint x y pinned =
     \<lparr>px = x, py = y, oldX = x, oldY = y, isPinned = pinned, pu = Fin 0, pv = Fin 0\<rparr>"

text \<open>The context as the field initialisers of the class leave it.\<close>

definition emptySystem :: SoftBodySystem where
  "emptySystem =
     \<lparr>objects = [], rigidBodies = [], mouseSprings = [], heldObjects = Map.empty,
      gravity = Fin 0.5, drag = Fin 0.95, groundFriction = Fin 0.8, solverIterations = 16,
      stiffness = Fin 1, breakingThreshold = Fin 10, time = Fin 0,
      heap = (\<lambda>r. newPoint (Fin 0) (Fin 0) False)\<rparr>"

text \<open>The body that \<open>spawnCube3D\<close> pushes, with the time-stamped identifier given.\<close>

definition cubeBody :: "string \<Rightarrow> num \<Rightarrow> num \<Rightarrow> RigidBody3D" where
  "cubeBody ident x y =
     \<lparr>id_body = ident, type_body = ''cube'',
      position = \<lparr>vx = x, vy = y, vz = Fin 0\<rparr>,
      rotation = \<lparr>qx = Fin 0, qy = Fin 0, qz = Fin 0, qw = Fin 1\<rparr>,
      scale = \<lparr>vx = Fin 1, vy = Fin 1, vz = Fin 1\<rparr>,
      velocity = \<lparr>vx = Fin 0, vy = Fin 0, vz = Fin 0\<rparr>,
      angularVelocity = \<lparr>vx = Fin 0, vy = Fin 0, vz = Fin 0\<rparr>,
      vertices =
        [\<lparr>vx = Fin (- 30), vy = Fin (- 30), vz = Fin (- 30)\<rparr>,
         \<lparr>vx = Fin 30, vy = Fin (- 30), vz = Fin (- 30)\<rparr>,
         \<lparr>vx = Fin 30, vy = Fin 30, vz = Fin (- 30)\<rparr>,
         \<lparr>vx = Fin (- 30), vy = Fin 30, vz = Fin (- 30)\<rparr>,
         \<lparr>vx = Fin (- 30), vy = Fin (- 30), vz = Fin 30\<rparr>,
         \<lparr>vx = Fin 30, vy = Fin (- 30), vz = Fin 30\<rparr>,
         \<lparr>vx = Fin 30, vy = Fin 30, vz = Fin 30\<rparr>,
         \<lparr>vx = Fin (- 30), vy = Fin 30, vz = Fin 30\<rparr>],
      faces =
        [([0, 1, 2, 3], ''rgba(0, 255, 255, 0.1)''), ([5, 4, 7, 6], ''rgba(0, 255, 255, 0.1)''),
         ([4, 0, 3, 7], ''rgba(0, 200, 255, 0.1)''), ([1, 5, 6, 2], ''rgba(0, 200, 255, 0.1)''),
         ([4, 5, 1, 0], ''rgba(0, 150, 255, 0.2)''), ([3, 2, 6, 7], ''rgba(0, 150, 255, 0.2)'')],
      isHeld = False, snapTarget = None, snapTimer = Fin 0,
      color = ''#06b6d4'', glow = Fin 0, dragonConfig = None\<rparr>"

text \<open>A single cube at the origin.\<close>

definition oneCube :: SoftBodySystem where
  "oneCube = emptySystem\<lparr>rigidBodies := [cubeBody ''cube-1'' (Fin 0) (Fin 0)]\<rparr>"

text \<open>The body that \<open>spawnDragon\<close> pushes, its mesh left empty: no modelled operation
  reads vertices or faces.\<close>

definition dragonBody :: "string \<Rightarrow> num \<Rightarrow> num \<Rightarrow> RigidBody3D" where
  "dragonBody ident x y =
     \<lparr>id_body = ident, type_body = ''dragon'',
      position = \<lparr>vx = x, vy = y, vz = Fin 0\<rparr>,
      rotation = \<lparr>qx = Fin 0, qy = Fin 0, qz = Fin 0, qw = Fin 1\<rparr>,
      scale = \<lparr>vx = Fin 1, vy = Fin 1, vz = Fin 1\<rparr>,
      velocity = \<lparr>vx = Fin 0, vy = Fin 0, vz = Fin 0\<rparr>,
      angularVelocity = \<lparr>vx = Fin 0, vy = Fin 0, vz = Fin 0\<rparr>,
      vertices = [], faces = [],
      isHeld = False, snapTarget = None, snapTimer = Fin 0,
      color = ''#4ade80'', glow = Fin 0,
      dragonConfig = Some \<lparr>jawAngle = Fin 0, neckPhase = Fin 0, wingPhase = Fin 0,
                            eyeColor = ''#fcd34d'', scale_dragon = Fin 1\<rparr>\<rparr>"

text \<open>A cube in a hand, and a cube in the stabilisation lock after a snap.\<close>

definition heldAndLocked :: SoftBodySystem where
  "heldAndLocked = emptySystem\<lparr>rigidBodies :=
     [(cubeBody ''cube-1'' (Fin 100) (Fin 200))\<lparr>isHeld := True, glow := Fin 1\<rparr>,
      (cubeBody ''cube-2'' (Fin 300) (Fin 440))\<lparr>snapTimer := Fin 20, glow := Fin 1\<rparr>]\<rparr>"

text \<open>A dragon in the stabilisation lock.\<close>

definition lockedDragon :: SoftBodySystem where
  "lockedDragon = emptySystem\<lparr>rigidBodies :=
     [(dragonBody ''dragon-1'' (Fin 300) (Fin 440))\<lparr>snapTimer := Fin 20\<rparr>]\<rparr>"

text \<open>A cube snapped onto another one, and the same cube after the other is gone.\<close>

definition stackedPair :: SoftBodySystem where
  "stackedPair = emptySystem\<lparr>rigidBodies :=
     [cubeBody ''cube-1'' (Fin 0) (Fin 500),
      (cubeBody ''cube-2'' (Fin 0) (Fin 440))\<lparr>snapTarget := Some ''cube-1''\<rparr>]\<rparr>"

definition orphanCube :: SoftBodySystem where
  "orphanCube = emptySystem\<lparr>rigidBodies :=
     [(cubeBody ''cube-2'' (Fin 0) (Fin 440))\<lparr>snapTarget := Some ''cube-1''\<rparr>]\<rparr>"

text \<open>A cube 70 above another one.\<close>

definition twoCubes :: "RigidBody3D list" where
  "twoCubes = [cubeBody ''cube-1'' (Fin 0) (Fin 500), cubeBody ''cube-2'' (Fin 0) (Fin 430)]"

text \<open>A cube out of reach of a hand at the origin, still glowing a little, and a soft
  body whose only point is out of reach as well.\<close>

definition farAway :: SoftBodySystem where
  "farAway = emptySystem
     \<lparr>rigidBodies := [(cubeBody ''cube-1'' (Fin 500) (Fin 0))\<lparr>glow := Fin 0.3\<rparr>],
      objects := [\<lparr>id_object = ''car-1'', type_object = ''car'', points = [0], sticks = []\<rparr>],
      heap := (heap emptySystem)(0 := newPoint (Fin 0) (Fin 300) False)\<rparr>"

text \<open>Hand 0 grabs the cube; then hand 1 grabs at a place 10 away from it.\<close>

definition grabbedOnce :: SoftBodySystem where
  "grabbedOnce = handleInteraction3D oneCube 0 (Fin 0) (Fin 0) (Fin 0) True (Fin 0)"

definition grabbedTwice :: SoftBodySystem where
  "grabbedTwice = handleInteraction3D grabbedOnce 1 (Fin 10) (Fin 0) (Fin 0) True (Fin 0)"

text \<open>A pinned base with one free point above it, joined by a stick, as the first
  segment of a plant.\<close>

definition pinnedPlant :: SoftBodySystem where
  "pinnedPlant = emptySystem
     \<lparr>objects := [\<lparr>id_object = ''plant-1'', type_object = ''plant'', points = [0, 1],
                   sticks = [\<lparr>p0 = 0, p1 = 1, length_stick = Fin 35, isHidden = False\<rparr>]\<rparr>],
      heap := (heap emptySystem)(0 := newPoint (Fin 100) (Fin 100) True,
                                 1 := newPoint (Fin 100) (Fin 65) False)\<rparr>"

text \<open>Hand 0 pinches at the pinned base and moves 100 to the right, still pinching.\<close>

definition pinchedPlant :: SoftBodySystem where
  "pinchedPlant =
     handleInteraction (handleInteraction pinnedPlant 0 (Fin 100) (Fin 100) True)
       0 (Fin 200) (Fin 100) True"

text \<open>Two linked free points that have left the viewport of 1000 by 1000 through its
  lower left corner.\<close>

definition cornered :: SoftBodySystem where
  "cornered = emptySystem
     \<lparr>objects := [\<lparr>id_object = ''car-1'', type_object = ''car'', points = [0, 1],
                   sticks = [\<lparr>p0 = 0, p1 = 1, length_stick = Fin 50, isHidden = False\<rparr>]\<rparr>],
      heap := (heap emptySystem)(0 := newPoint (Fin 5) (Fin 995) False,
                                 1 := newPoint (Fin 3) (Fin 998) False)\<rparr>"

text \<open>A stick of rest length 5 between two points that are 100 apart.\<close>

definition shortStick :: Stick where
  "shortStick = \<lparr>p0 = 0, p1 = 1, length_stick = Fin 5, isHidden = False\<rparr>"

definition overstretched :: SoftBodySystem where
  "overstretched = emptySystem
     \<lparr>objects := [\<lparr>id_object = ''car-1'', type_object = ''car'', points = [0, 1],
                   sticks = [shortStick]\<rparr>],
      heap := (heap emptySystem)(0 := newPoint (Fin 100) (Fin 100) False,
                                 1 := newPoint (Fin 200) (Fin 100) False)\<rparr>"

text \<open>Then hand 0 lets go, while hand 1 goes on grabbing.\<close>

definition releasedByOne :: SoftBodySystem where
  "releasedByOne = handleInteraction3D grabbedTwice 0 (Fin 0) (Fin 0) (Fin 0) False (Fin 0)"

section \<open>The rigid-body loop of the tick\<close>

lemma map_update_same: "(map f xs)[n := f (xs ! n)] = map f xs"
  by (metis list_update_id map_update)

lemma id_body_decayGlow [simp]: "id_body (decayGlow b) = id_body b"
  by (simp add: decayGlow_def)

lemma id_body_animateDragon [simp]: "id_body (animateDragon t b) = id_body b"
  by (simp add: animateDragon_def split: option.splits)

lemma id_body_freeFall [simp]: "id_body (freeFall s h b) = id_body b"
  by (simp add: freeFall_def Let_def)

lemma length_updateBody [simp]: "length (updateBody s t h bodies n) = length bodies"
  by (simp add: updateBody_def Let_def split: option.splits)

lemma nth_updateBody_other: "k \<noteq> n \<Longrightarrow> updateBody s t h bodies n ! k = bodies ! k"
  by (simp add: updateBody_def Let_def split: option.splits)

lemma ids_updateBody [simp]: "map id_body (updateBody s t h bodies n) = map id_body bodies"
  by (simp add: updateBody_def Let_def map_update map_update_same split: option.splits)

lemma length_updateBodies [simp]: "length (updateBodies s t h m bodies) = length bodies"
  by (induction m) simp_all

lemma ids_updateBodies [simp]: "map id_body (updateBodies s t h m bodies) = map id_body bodies"
  by (induction m) simp_all

text \<open>A body is untouched before its own iteration, and final after it.\<close>

lemma nth_updateBodies_later: "m \<le> k \<Longrightarrow> updateBodies s t h m bodies ! k = bodies ! k"
  by (induction m) (simp_all add: nth_updateBody_other)

lemma nth_updateBodies_done:
  "n < m \<Longrightarrow>
   updateBodies s t h m bodies ! n = updateBody s t h (updateBodies s t h n bodies) n ! n"
proof (induction m)
  case 0
  then show ?case by simp
next
  case (Suc m)
  show ?case
  proof (cases "n = m")
    case True
    then show ?thesis by simp
  next
    case False
    with Suc.prems have "n < m" by simp
    with Suc.IH False show ?thesis by (simp add: nth_updateBody_other)
  qed
qed

lemma nth_updateBodies_fixed:
  assumes "j < m" and "j < m'"
  shows "updateBodies s t h m bodies ! j = updateBodies s t h m' bodies ! j"
  using assms by (simp add: nth_updateBodies_done)

lemma rigidBodies_update:
  "rigidBodies (update s width height) =
   updateBodies s (time s + Fin 0.05) height (length (rigidBodies s)) (rigidBodies s)"
  by (simp add: update_def Let_def split: prod.splits)

lemma nth_rigidBodies_update:
  assumes "n < length (rigidBodies s)"
  shows "rigidBodies (update s width height) ! n =
         updateBody s (time s + Fin 0.05) height
           (updateBodies s (time s + Fin 0.05) height n (rigidBodies s)) n ! n"
  using assms by (simp add: rigidBodies_update nth_updateBodies_done)

lemma decayGlow_fields [simp]:
  "isHeld (decayGlow b) = isHeld b" "snapTimer (decayGlow b) = snapTimer b"
  "snapTarget (decayGlow b) = snapTarget b" "position (decayGlow b) = position b"
  "velocity (decayGlow b) = velocity b" "rotation (decayGlow b) = rotation b"
  by (simp_all add: decayGlow_def)

lemma animateDragon_fields [simp]:
  "isHeld (animateDragon t b) = isHeld b" "snapTimer (animateDragon t b) = snapTimer b"
  "snapTarget (animateDragon t b) = snapTarget b" "position (animateDragon t b) = position b"
  "velocity (animateDragon t b) = velocity b" "rotation (animateDragon t b) = rotation b"
  "glow (animateDragon t b) = glow b"
  by (simp_all add: animateDragon_def split: option.splits)

section \<open>One tick of free fall\<close>

text \<open>
  Claim C9. A body at rest at the origin, neither held nor snapped, under gravity 0.5 and
  with the floor out of reach (\<open>height - 30\<close> not above the new vertical position), has
  after one tick the velocity \<open>(0, 0.49, 0)\<close>, which is \<open>0.5 \<times> 0.98\<close>, and the position
  \<open>(0, 0.5, 0)\<close>: gravity enters the velocity before the velocity enters the position, so
  the body has moved by one gravity step, and the drag applies to the velocity afterwards.
\<close>

theorem update_free_fall_one_tick:
  assumes "n < length (rigidBodies s)"
    and "position (rigidBodies s ! n) = \<lparr>vx = Fin 0, vy = Fin 0, vz = Fin 0\<rparr>"
    and "velocity (rigidBodies s ! n) = \<lparr>vx = Fin 0, vy = Fin 0, vz = Fin 0\<rparr>"
    and "\<not> isHeld (rigidBodies s ! n)"
    and "snapTimer (rigidBodies s ! n) = Fin 0"
    and "snapTarget (rigidBodies s ! n) = None"
    and "gravity s = Fin 0.5"
    and "height = Fin h" and "30.5 \<le> h"
  shows "velocity (rigidBodies (update s width height) ! n) =
           \<lparr>vx = Fin 0, vy = Fin 0.49, vz = Fin 0\<rparr>
       \<and> position (rigidBodies (update s width height) ! n) =
           \<lparr>vx = Fin 0, vy = Fin 0.5, vz = Fin 0\<rparr>"
  using assms
  by (simp add: nth_rigidBodies_update nth_updateBodies_later updateBody_def Let_def
      freeFall_def vAdd_def vScale_def minus_num_def)

theorem update_free_fall_one_tick_witness:
  "0 < length (rigidBodies oneCube)
   \<and> position (rigidBodies oneCube ! 0) = \<lparr>vx = Fin 0, vy = Fin 0, vz = Fin 0\<rparr>
   \<and> velocity (rigidBodies oneCube ! 0) = \<lparr>vx = Fin 0, vy = Fin 0, vz = Fin 0\<rparr>
   \<and> \<not> isHeld (rigidBodies oneCube ! 0)
   \<and> snapTimer (rigidBodies oneCube ! 0) = Fin 0
   \<and> snapTarget (rigidBodies oneCube ! 0) = None
   \<and> gravity oneCube = Fin 0.5
   \<and> (30.5 :: real) \<le> 1000
   \<and> velocity (rigidBodies (update oneCube (Fin 800) (Fin 1000)) ! 0) =
        \<lparr>vx = Fin 0, vy = Fin 0.49, vz = Fin 0\<rparr>
   \<and> position (rigidBodies (update oneCube (Fin 800) (Fin 1000)) ! 0) =
        \<lparr>vx = Fin 0, vy = Fin 0.5, vz = Fin 0\<rparr>"
proof -
  have hyps: "0 < length (rigidBodies oneCube)"
    "position (rigidBodies oneCube ! 0) = \<lparr>vx = Fin 0, vy = Fin 0, vz = Fin 0\<rparr>"
    "velocity (rigidBodies oneCube ! 0) = \<lparr>vx = Fin 0, vy = Fin 0, vz = Fin 0\<rparr>"
    "\<not> isHeld (rigidBodies oneCube ! 0)"
    "snapTimer (rigidBodies oneCube ! 0) = Fin 0"
    "snapTarget (rigidBodies oneCube ! 0) = None"
    "gravity oneCube = Fin 0.5"
    by (simp_all add: oneCube_def emptySystem_def cubeBody_def)
  have h: "(30.5 :: real) \<le> 1000" by simp
  show ?thesis
    using hyps h update_free_fall_one_tick [OF hyps refl h, of "Fin 800"] by simp
qed

section \<open>Suspended physics\<close>

text \<open>
  Claim C7, as amended. In one tick a held body keeps every field except \<open>glow\<close>, which
  decays by 0.05 when positive, and, for a body of type dragon that has a dragon
  configuration, the animation fields \<open>neckPhase\<close> and \<open>jawAngle\<close> of that
  configuration; so its position, velocity and rotation are unchanged. A body that is
  not held and has a positive \<open>snapTimer\<close> changes in these fields and in \<open>snapTimer\<close>,
  which drops by 1, and in nothing else.
\<close>

theorem update_suspended_frame:
  assumes "n < length (rigidBodies s)"
  shows "let b = rigidBodies s ! n;
             b' = rigidBodies (update s width height) ! n;
             t = time s + Fin 0.05;
             g = (if glow b > Fin 0 then glow b - Fin 0.05 else glow b);
             d = (if type_body b = ''dragon''
                  then map_option (\<lambda>c. c\<lparr>neckPhase := t,
                         jawAngle := Math_sin (t * Fin 2) * Fin 0.2 + Fin 0.2\<rparr>) (dragonConfig b)
                  else dragonConfig b)
         in (isHeld b \<longrightarrow> b' = b\<lparr>glow := g, dragonConfig := d\<rparr>) \<and>
            (\<not> isHeld b \<and> snapTimer b > Fin 0 \<longrightarrow>
               b' = b\<lparr>snapTimer := snapTimer b - Fin 1, glow := g, dragonConfig := d\<rparr>)"
  using assms
  by (auto simp add: nth_rigidBodies_update nth_updateBodies_later updateBody_def Let_def
      decayGlow_def animateDragon_def split: option.splits)

theorem update_suspended_frame_witness:
  "isHeld (rigidBodies heldAndLocked ! 0)
   \<and> rigidBodies (update heldAndLocked (Fin 800) (Fin 600)) ! 0 =
       (rigidBodies heldAndLocked ! 0)\<lparr>glow := Fin 0.95\<rparr>
   \<and> \<not> isHeld (rigidBodies heldAndLocked ! 1)
   \<and> snapTimer (rigidBodies heldAndLocked ! 1) > Fin 0
   \<and> rigidBodies (update heldAndLocked (Fin 800) (Fin 600)) ! 1 =
       (rigidBodies heldAndLocked ! 1)\<lparr>snapTimer := Fin 19, glow := Fin 0.95\<rparr>"
  using update_suspended_frame [of 0 heldAndLocked "Fin 800" "Fin 600"]
    update_suspended_frame [of 1 heldAndLocked "Fin 800" "Fin 600"]
  by (simp add: heldAndLocked_def emptySystem_def cubeBody_def Let_def minus_num_def)

text \<open>Claim C7 as stated allows no change besides \<open>snapTimer\<close> and \<open>glow\<close>; a
  snap-locked dragon has its animation fields rewritten all the same.\<close>

theorem update_suspended_dragon_counterexample:
  "\<not> isHeld (rigidBodies lockedDragon ! 0)
   \<and> snapTimer (rigidBodies lockedDragon ! 0) > Fin 0
   \<and> dragonConfig (rigidBodies (update lockedDragon (Fin 800) (Fin 600)) ! 0)
       \<noteq> dragonConfig (rigidBodies lockedDragon ! 0)"
  by (simp add: lockedDragon_def emptySystem_def dragonBody_def update_def updateBody_def
      animateDragon_def decayGlow_def Let_def)

section \<open>Looking bodies up by identifier\<close>

lemma findIndex_map: "findIndex P (map f xs) = findIndex (\<lambda>x. P (f x)) xs"
  by (induction xs) simp_all

lemma findIndex_Some_iff:
  "findIndex P xs = Some j \<longleftrightarrow> j < length xs \<and> P (xs ! j) \<and> (\<forall>k<j. \<not> P (xs ! k))"
proof (induction xs arbitrary: j)
  case Nil
  then show ?case by simp
next
  case (Cons x xs)
  show ?case
  proof (cases "P x")
    case True
    then show ?thesis by (cases j) auto
  next
    case False
    show ?thesis
    proof (cases j)
      case 0
      with False show ?thesis by simp
    next
      case (Suc i)
      with False Cons.IH [of i] show ?thesis
        by (auto simp: less_Suc_eq_0_disj)
    qed
  qed
qed

lemma findIndex_None_iff: "findIndex P xs = None \<longleftrightarrow> (\<forall>x\<in>set xs. \<not> P x)"
  by (induction xs) simp_all

lemma ids_findIndex_cong:
  "map id_body xs = map id_body ys \<Longrightarrow>
   findIndex (\<lambda>b. id_body b = tid) xs = findIndex (\<lambda>b. id_body b = tid) ys"
  using findIndex_map [of "\<lambda>i. i = tid" id_body xs] findIndex_map [of "\<lambda>i. i = tid" id_body ys]
  by simp

section \<open>Following a snap target\<close>

lemma updateBody_snapped:
  assumes "n < length bodies"
    and "body = decayGlow (animateDragon t (bodies ! n))"
    and "\<not> isHeld body" and "\<not> snapTimer body > Fin 0"
    and "snapTarget body = Some tid" and "tid \<noteq> []"
  shows "updateBody s t h bodies n ! n =
         (case findIndex (\<lambda>b. id_body b = tid) (bodies[n := body]) of
            Some j \<Rightarrow>
              body\<lparr>position := \<lparr>vx = vx (position (bodies[n := body] ! j)),
                                  vy = vy (position (bodies[n := body] ! j)) - Fin 60,
                                  vz = vz (position (bodies[n := body] ! j))\<rparr>,
                   rotation := rotation (bodies[n := body] ! j)\<rparr>
          | None \<Rightarrow> freeFall s h (body\<lparr>snapTarget := None\<rparr>))"
  using assms by (simp add: updateBody_def Let_def split: option.splits)

text \<open>
  Claim C6. Take a body that is not held, whose \<open>snapTimer\<close> is not positive and whose
  \<open>snapTarget\<close> is an identifier (not null, and not the empty string, which no spawn
  operation produces and which the truth test of the source treats like null). If a body
  with that identifier exists, the first such body is the target: after the tick the
  follower has the target's x and z, the target's y minus 60 and the target's rotation,
  its velocity is unchanged (no gravity, no integration) and it stays snapped. The
  target's values are those at the moment the loop reaches the follower: its values after
  the tick when the target comes earlier in the body list, its values before the tick
  otherwise. If no body has that identifier, \<open>snapTarget\<close> becomes null and the body
  goes through the free-fall step (gravity, integration, floor collision, drag) in the
  same tick.
\<close>

theorem update_snap_following:
  assumes "n < length (rigidBodies s)"
    and "\<not> isHeld (rigidBodies s ! n)"
    and "\<not> snapTimer (rigidBodies s ! n) > Fin 0"
    and "snapTarget (rigidBodies s ! n) = Some tid"
    and "tid \<noteq> []"
  shows "let before = rigidBodies s;
             after = rigidBodies (update s width height)
         in case findIndex (\<lambda>b. id_body b = tid) before of
              Some j \<Rightarrow>
                (let target = (if j < n then after ! j else before ! j)
                 in position (after ! n) = \<lparr>vx = vx (position target),
                                            vy = vy (position target) - Fin 60,
                                            vz = vz (position target)\<rparr>
                  \<and> rotation (after ! n) = rotation target
                  \<and> velocity (after ! n) = velocity (before ! n)
                  \<and> snapTarget (after ! n) = Some tid)
            | None \<Rightarrow>
                after ! n = freeFall s height
                  ((decayGlow (animateDragon (time s + Fin 0.05) (before ! n)))
                     \<lparr>snapTarget := None\<rparr>)"
proof -
  define t where "t = time s + Fin 0.05"
  define before where "before = rigidBodies s"
  define mid where "mid = updateBodies s t height n before"
  define body where "body = decayGlow (animateDragon t (before ! n))"
  define after where "after = rigidBodies (update s width height)"
  have n: "n < length before" using assms(1) by (simp add: before_def)
  have midn: "mid ! n = before ! n"
    by (simp add: mid_def nth_updateBodies_later)
  have nmid: "n < length mid" using n by (simp add: mid_def)
  have bodymid: "body = decayGlow (animateDragon t (mid ! n))"
    by (simp add: body_def midn)
  have after_n: "after ! n = updateBody s t height mid n ! n"
    using assms(1) by (simp add: after_def nth_rigidBodies_update mid_def t_def before_def)
  have "map id_body (mid[n := body]) = (map id_body mid)[n := id_body (mid ! n)]"
    by (simp add: map_update bodymid)
  also have "\<dots> = map id_body mid"
    by (rule map_update_same)
  also have "\<dots> = map id_body before"
    by (simp add: mid_def)
  finally have fi: "findIndex (\<lambda>b. id_body b = tid) (mid[n := body]) =
      findIndex (\<lambda>b. id_body b = tid) before"
    by (rule ids_findIndex_cong)
  have flags: "\<not> isHeld body" "\<not> snapTimer body > Fin 0" "snapTarget body = Some tid"
    using assms by (simp_all add: body_def before_def)
  show ?thesis
  proof (cases "findIndex (\<lambda>b. id_body b = tid) before")
    case None
    with fi have "after ! n = freeFall s height (body\<lparr>snapTarget := None\<rparr>)"
      using updateBody_snapped [OF nmid bodymid flags assms(5), of s height]
      unfolding after_n by simp
    with None show ?thesis
      by (simp add: before_def [symmetric] after_def [symmetric] body_def t_def Let_def)
  next
    case (Some j)
    then have j: "j < length before" by (simp add: findIndex_Some_iff)
    define target where "target = (if j < n then after ! j else before ! j)"
    have tgt: "position (mid[n := body] ! j) = position target \<and>
               rotation (mid[n := body] ! j) = rotation target"
    proof (cases "j < n")
      case True
      then have "mid[n := body] ! j = mid ! j" by simp
      also have "\<dots> = after ! j"
        using True n nth_updateBodies_fixed [of j n "length before" s t height before]
        by (simp add: mid_def after_def rigidBodies_update t_def before_def)
      finally show ?thesis using True by (simp add: target_def)
    next
      case False
      show ?thesis
      proof (cases "j = n")
        case True
        with n show ?thesis by (simp add: target_def body_def mid_def)
      next
        case neq: False
        with False have "n < j" by simp
        then have "mid[n := body] ! j = before ! j"
          by (simp add: mid_def nth_updateBodies_later)
        with False show ?thesis by (simp add: target_def)
      qed
    qed
    from Some fi
    have "after ! n = body\<lparr>position := \<lparr>vx = vx (position (mid[n := body] ! j)),
                                         vy = vy (position (mid[n := body] ! j)) - Fin 60,
                                         vz = vz (position (mid[n := body] ! j))\<rparr>,
                            rotation := rotation (mid[n := body] ! j)\<rparr>"
      using updateBody_snapped [OF nmid bodymid flags assms(5), of s height]
      unfolding after_n by simp
    with tgt flags have
      "position (after ! n) = \<lparr>vx = vx (position target), vy = vy (position target) - Fin 60,
                              vz = vz (position target)\<rparr>
       \<and> rotation (after ! n) = rotation target
       \<and> velocity (after ! n) = velocity (before ! n)
       \<and> snapTarget (after ! n) = Some tid"
      by (simp add: body_def)
    with Some show ?thesis
      by (simp add: before_def [symmetric] after_def [symmetric] target_def Let_def)
  qed
qed

theorem update_snap_following_witness:
  "\<not> isHeld (rigidBodies stackedPair ! 1)
   \<and> \<not> snapTimer (rigidBodies stackedPair ! 1) > Fin 0
   \<and> snapTarget (rigidBodies stackedPair ! 1) = Some ''cube-1''
   \<and> position (rigidBodies (update stackedPair (Fin 800) (Fin 1000)) ! 1) =
        \<lparr>vx = Fin 0, vy = Fin 440.5, vz = Fin 0\<rparr>
   \<and> velocity (rigidBodies (update stackedPair (Fin 800) (Fin 1000)) ! 1) =
        \<lparr>vx = Fin 0, vy = Fin 0, vz = Fin 0\<rparr>
   \<and> snapTarget (rigidBodies orphanCube ! 0) = Some ''cube-1''
   \<and> snapTarget (rigidBodies (update orphanCube (Fin 800) (Fin 1000)) ! 0) = None
   \<and> position (rigidBodies (update orphanCube (Fin 800) (Fin 1000)) ! 0) =
        \<lparr>vx = Fin 0, vy = Fin 440.5, vz = Fin 0\<rparr>
   \<and> velocity (rigidBodies (update orphanCube (Fin 800) (Fin 1000)) ! 0) =
        \<lparr>vx = Fin 0, vy = Fin 0.49, vz = Fin 0\<rparr>"
  using update_snap_following [of 1 stackedPair "''cube-1''" "Fin 800" "Fin 1000"]
    update_snap_following [of 0 orphanCube "''cube-1''" "Fin 800" "Fin 1000"]
  by (simp add: stackedPair_def orphanCube_def emptySystem_def cubeBody_def Let_def minus_num_def
      update_def updateBody_def decayGlow_def animateDragon_def freeFall_def vAdd_def vScale_def)

section \<open>Snapping onto a stack\<close>

text \<open>
  Claim C5. Let body A and another body B, with a different identifier, have the same
  finite x and z, and let B's y minus A's y lie strictly between 0 and 100, the stacking
  bound (the stack height 60 plus 40 of slack). If no body before B in the list passes
  the stacking test against A, then \<open>checkSnapping\<close> puts A at B's x and z and at B's y
  minus 60, gives it B's rotation, zeroes its velocity, sets its \<open>snapTarget\<close> to B's
  identifier and its \<open>snapTimer\<close> to 20.
\<close>

theorem checkSnapping_directly_above:
  assumes "a < length bodies" and "j < length bodies"
    and "id_body (bodies ! j) \<noteq> id_body (bodies ! a)"
    and "position (bodies ! a) = \<lparr>vx = Fin x, vy = Fin ya, vz = Fin z\<rparr>"
    and "position (bodies ! j) = \<lparr>vx = Fin x, vy = Fin yb, vz = Fin z\<rparr>"
    and "0 < yb - ya" and "yb - ya < 100"
    and "\<forall>k<j. \<not> snapMatch (bodies ! a) (bodies ! k)"
  shows "let A = checkSnapping bodies a ! a
         in position A = \<lparr>vx = Fin x, vy = Fin (yb - 60), vz = Fin z\<rparr>
          \<and> rotation A = rotation (bodies ! j)
          \<and> velocity A = \<lparr>vx = Fin 0, vy = Fin 0, vz = Fin 0\<rparr>
          \<and> snapTarget A = Some (id_body (bodies ! j))
          \<and> snapTimer A = Fin 20"
proof -
  have "snapMatch (bodies ! a) (bodies ! j)"
    using assms(3-7) by (simp add: snapMatch_def Let_def minus_num_def)
  with assms(2,8) have "findIndex (snapMatch (bodies ! a)) bodies = Some j"
    by (simp add: findIndex_Some_iff)
  moreover have "a \<noteq> j" using assms(3) by auto
  ultimately show ?thesis
    using assms(1,2,5) by (simp add: checkSnapping_def Let_def minus_num_def)
qed

theorem checkSnapping_directly_above_witness:
  "(1::nat) < length twoCubes \<and> (0::nat) < length twoCubes
   \<and> id_body (twoCubes ! 0) \<noteq> id_body (twoCubes ! 1)
   \<and> position (twoCubes ! 1) = \<lparr>vx = Fin 0, vy = Fin 430, vz = Fin 0\<rparr>
   \<and> position (twoCubes ! 0) = \<lparr>vx = Fin 0, vy = Fin 500, vz = Fin 0\<rparr>
   \<and> (0::real) < 500 - 430 \<and> (500::real) - 430 < 100
   \<and> position (checkSnapping twoCubes 1 ! 1) = \<lparr>vx = Fin 0, vy = Fin 440, vz = Fin 0\<rparr>
   \<and> rotation (checkSnapping twoCubes 1 ! 1) = rotation (twoCubes ! 0)
   \<and> velocity (checkSnapping twoCubes 1 ! 1) = \<lparr>vx = Fin 0, vy = Fin 0, vz = Fin 0\<rparr>
   \<and> snapTarget (checkSnapping twoCubes 1 ! 1) = Some ''cube-1''
   \<and> snapTimer (checkSnapping twoCubes 1 ! 1) = Fin 20"
proof -
  have hyps: "(1::nat) < length twoCubes" "(0::nat) < length twoCubes"
    "id_body (twoCubes ! 0) \<noteq> id_body (twoCubes ! 1)"
    "position (twoCubes ! 1) = \<lparr>vx = Fin 0, vy = Fin 430, vz = Fin 0\<rparr>"
    "position (twoCubes ! 0) = \<lparr>vx = Fin 0, vy = Fin 500, vz = Fin 0\<rparr>"
    "(0::real) < 500 - 430" "(500::real) - 430 < 100"
    "\<forall>k<(0::nat). \<not> snapMatch (twoCubes ! 1) (twoCubes ! k)"
    by (simp_all add: twoCubes_def cubeBody_def)
  have "id_body (twoCubes ! 0) = ''cube-1''" by (simp add: twoCubes_def cubeBody_def)
  with hyps checkSnapping_directly_above [OF hyps] show ?thesis by (simp add: Let_def)
qed

section \<open>Square roots of concrete numbers\<close>

lemma sqrt_less_iff_square: "0 \<le> a \<Longrightarrow> 0 < b \<Longrightarrow> sqrt a < b \<longleftrightarrow> a < b * b"
proof -
  assume a: "0 \<le> a" and b: "0 < b"
  have "sqrt a < b \<longleftrightarrow> sqrt a < sqrt (b * b)" using b by simp
  also have "\<dots> \<longleftrightarrow> a < b * b" by (rule real_sqrt_less_iff)
  finally show ?thesis .
qed

lemma less_sqrt_iff_square: "0 \<le> b \<Longrightarrow> b < sqrt a \<longleftrightarrow> b * b < a"
proof -
  assume b: "0 \<le> b"
  have "b < sqrt a \<longleftrightarrow> sqrt (b * b) < sqrt a" using b by simp
  also have "\<dots> \<longleftrightarrow> b * b < a" by (rule real_sqrt_less_iff)
  finally show ?thesis .
qed

lemma sqrt_100: "sqrt 100 = 10"
  by (rule real_sqrt_unique) simp_all

section \<open>A grab or a pinch that finds nothing\<close>

lemma resetGlow_geometry [simp]:
  "screenDist (resetGlow b) x y = screenDist b x y"
  "colliderRadius (resetGlow b) = colliderRadius b"
  by (simp_all add: resetGlow_def screenDist_def colliderRadius_def)

lemma grabScan_none:
  "(\<forall>k<n. \<not> screenDist (bodies ! k) x y < colliderRadius (bodies ! k)) \<Longrightarrow>
   grabScan x y bodies n = (PInf, None)"
  by (induction n) simp_all

lemma scanPoints_none:
  "(\<forall>p\<in>set ps. \<not> Math_sqrt ((px (h p) - x) * (px (h p) - x) +
                               (py (h p) - y) * (py (h p) - y)) < d) \<Longrightarrow>
   scanPoints h x y ps (d, None) = (d, None)"
  by (induction ps) (simp_all add: Let_def)

lemma scanObjects_none:
  "(\<forall>obj\<in>set objs. type_object obj \<noteq> ''devil_horn'' \<longrightarrow>
      (\<forall>p\<in>set (points obj). \<not> Math_sqrt ((px (h p) - x) * (px (h p) - x) +
                                            (py (h p) - y) * (py (h p) - y)) < d)) \<Longrightarrow>
   scanObjects h x y objs (d, None) = (d, None)"
  by (induction objs) (simp_all add: scanPoints_none)

lemma setAnchor_absent: "map_of springs handId = None \<Longrightarrow> setAnchor handId x y springs = springs"
proof (induction springs)
  case Nil
  then show ?case by (simp add: setAnchor_def)
next
  case (Cons e es)
  then show ?case by (cases e) (simp add: setAnchor_def split: if_splits)
qed

text \<open>
  Claim C8, as amended. When \<open>handleInteraction3D\<close> is called with \<open>isGrabbing\<close> true
  for a hand without a hold record and no body is within its collider radius of the hand,
  the hand stays without a hold record and the only change of state is the glow reset
  that opens every call: the glow of each body that is not held and glows below 0.5
  becomes 0. When \<open>handleInteraction\<close> is called with \<open>isPinching\<close> true for a hand
  without a spring and no point of a non-exempt object is nearer than 80, the call
  changes nothing at all.
\<close>

theorem no_candidate_no_change:
  "(heldObjects s handId = None \<and>
      (\<forall>b\<in>set (rigidBodies s). \<not> screenDist b x y < colliderRadius b) \<longrightarrow>
      handleInteraction3D s handId x y z True rotationAngle =
        s\<lparr>rigidBodies := map resetGlow (rigidBodies s)\<rparr>) \<and>
   (map_of (mouseSprings s) handId = None \<and>
      (\<forall>obj\<in>set (objects s). type_object obj \<noteq> ''devil_horn'' \<longrightarrow>
         (\<forall>p\<in>set (points obj).
            \<not> Math_sqrt ((px (heap s p) - x) * (px (heap s p) - x) +
                          (py (heap s p) - y) * (py (heap s p) - y)) < Fin 80)) \<longrightarrow>
      handleInteraction s handId x y True = s)"
proof (intro conjI impI)
  assume a: "heldObjects s handId = None \<and>
      (\<forall>b\<in>set (rigidBodies s). \<not> screenDist b x y < colliderRadius b)"
  then have "grabScan x y (map resetGlow (rigidBodies s))
               (length (map resetGlow (rigidBodies s))) = (PInf, None)"
    by (intro grabScan_none) simp
  with a show "handleInteraction3D s handId x y z True rotationAngle =
        s\<lparr>rigidBodies := map resetGlow (rigidBodies s)\<rparr>"
    by (simp add: handleInteraction3D_def Let_def)
next
  assume a: "map_of (mouseSprings s) handId = None \<and>
      (\<forall>obj\<in>set (objects s). type_object obj \<noteq> ''devil_horn'' \<longrightarrow>
         (\<forall>p\<in>set (points obj).
            \<not> Math_sqrt ((px (heap s p) - x) * (px (heap s p) - x) +
                          (py (heap s p) - y) * (py (heap s p) - y)) < Fin 80))"
  then have "scanObjects (heap s) x y (objects s) (Fin 80, None) = (Fin 80, None)"
    by (intro scanObjects_none) simp
  with a show "handleInteraction s handId x y True = s"
    by (simp add: handleInteraction_def setAnchor_absent)
qed

lemma farAway_facts:
  "heldObjects farAway 0 = None"
  "rigidBodies farAway = [(cubeBody ''cube-1'' (Fin 500) (Fin 0))\<lparr>glow := Fin 0.3\<rparr>]"
  "\<not> screenDist ((cubeBody ''cube-1'' (Fin 500) (Fin 0))\<lparr>glow := Fin 0.3\<rparr>) (Fin 0) (Fin 0)
       < colliderRadius ((cubeBody ''cube-1'' (Fin 500) (Fin 0))\<lparr>glow := Fin 0.3\<rparr>)"
  "map_of (mouseSprings farAway) 0 = None"
  "objects farAway = [\<lparr>id_object = ''car-1'', type_object = ''car'', points = [0], sticks = []\<rparr>]"
  "heap farAway 0 = newPoint (Fin 0) (Fin 300) False"
  by (simp_all add: farAway_def emptySystem_def cubeBody_def screenDist_def colliderRadius_def
      Math_max3_def minus_num_def sqrt_less_iff_square)

theorem no_candidate_no_change_witness:
  "heldObjects farAway 0 = None
   \<and> length (rigidBodies farAway) = 1
   \<and> \<not> screenDist (rigidBodies farAway ! 0) (Fin 0) (Fin 0)
         < colliderRadius (rigidBodies farAway ! 0)
   \<and> handleInteraction3D farAway 0 (Fin 0) (Fin 0) (Fin 0) True (Fin 0) =
       farAway\<lparr>rigidBodies := map resetGlow (rigidBodies farAway)\<rparr>
   \<and> map_of (mouseSprings farAway) 0 = None
   \<and> length (objects farAway) = 1
   \<and> points (objects farAway ! 0) = [0]
   \<and> \<not> Math_sqrt ((px (heap farAway 0) - Fin 0) * (px (heap farAway 0) - Fin 0) +
                    (py (heap farAway 0) - Fin 0) * (py (heap farAway 0) - Fin 0)) < Fin 80
   \<and> handleInteraction farAway 0 (Fin 0) (Fin 0) True = farAway"
proof -
  have a: "\<forall>b\<in>set (rigidBodies farAway). \<not> screenDist b (Fin 0) (Fin 0) < colliderRadius b"
    using farAway_facts(3) by (simp add: farAway_facts(2))
  have c: "\<not> Math_sqrt ((px (heap farAway 0) - Fin 0) * (px (heap farAway 0) - Fin 0) +
                    (py (heap farAway 0) - Fin 0) * (py (heap farAway 0) - Fin 0)) < Fin 80"
    by (simp add: farAway_facts(6) newPoint_def minus_num_def sqrt_less_iff_square)
  then have b: "\<forall>obj\<in>set (objects farAway). type_object obj \<noteq> ''devil_horn'' \<longrightarrow>
         (\<forall>p\<in>set (points obj).
            \<not> Math_sqrt ((px (heap farAway p) - Fin 0) * (px (heap farAway p) - Fin 0) +
                          (py (heap farAway p) - Fin 0) * (py (heap farAway p) - Fin 0)) < Fin 80)"
    by (simp add: farAway_facts(5))
  have d: "length (rigidBodies farAway) = 1"
    "\<not> screenDist (rigidBodies farAway ! 0) (Fin 0) (Fin 0)
         < colliderRadius (rigidBodies farAway ! 0)"
    "length (objects farAway) = 1" "points (objects farAway ! 0) = [0]"
    using farAway_facts(3) by (simp_all add: farAway_facts(2,5))
  show ?thesis
    using a b c d farAway_facts(1,4)
      no_candidate_no_change [of farAway 0 "Fin 0" "Fin 0" "Fin 0" "Fin 0"]
    by blast
qed

text \<open>Claim C8 as stated allows no change of any body field; the glow reset changes the
  glow of a body that no hand is near.\<close>

theorem no_candidate_glow_reset_counterexample:
  "heldObjects farAway 0 = None
   \<and> length (rigidBodies farAway) = 1
   \<and> \<not> screenDist (rigidBodies farAway ! 0) (Fin 0) (Fin 0) < colliderRadius (rigidBodies farAway ! 0)
   \<and> glow (rigidBodies farAway ! 0) = Fin 0.3
   \<and> glow (rigidBodies (handleInteraction3D farAway 0 (Fin 0) (Fin 0) (Fin 0) True (Fin 0)) ! 0) = Fin 0"
  by (simp add: farAway_def emptySystem_def cubeBody_def screenDist_def colliderRadius_def
      Math_max3_def minus_num_def sqrt_less_iff_square handleInteraction3D_def resetGlow_def Let_def)

section \<open>Two hands and one body\<close>

text \<open>The candidate scan does not depend on which bodies are held.\<close>

lemma held_flag_geometry [simp]:
  "screenDist (b\<lparr>isHeld := v\<rparr>) x y = screenDist b x y"
  "colliderRadius (b\<lparr>isHeld := v\<rparr>) = colliderRadius b"
  by (simp_all add: screenDist_def colliderRadius_def)

lemma grabScan_ignores_isHeld:
  "n \<le> length bodies \<Longrightarrow>
   grabScan x y (map (\<lambda>b. b\<lparr>isHeld := f b\<rparr>) bodies) n = grabScan x y bodies n"
  by (induction n) (simp_all add: Let_def case_prod_beta)

text \<open>
  Claim C1 says that a second hand cannot establish a hold on a body that is already
  held. The candidate scan of \<open>handleInteraction3D\<close> does not look at \<open>isHeld\<close>: after
  hand 0 has grabbed the cube, hand 1 grabs within the collider radius and both hold
  records name the same body. When hand 0 then lets go, the cube is marked as not held
  although the hold record of hand 1 still names it.
\<close>

theorem double_grab_same_body:
  "isHeld (rigidBodies grabbedOnce ! 0)
   \<and> map_option bodyId (heldObjects grabbedOnce 0) = Some ''cube-1''
   \<and> heldObjects grabbedOnce 1 = None
   \<and> map_option bodyId (heldObjects grabbedTwice 0) = Some ''cube-1''
   \<and> map_option bodyId (heldObjects grabbedTwice 1) = Some ''cube-1''
   \<and> \<not> isHeld (rigidBodies releasedByOne ! 0)
   \<and> map_option bodyId (heldObjects releasedByOne 1) = Some ''cube-1''"
  by (simp add: releasedByOne_def grabbedTwice_def grabbedOnce_def oneCube_def emptySystem_def
      cubeBody_def screenDist_def colliderRadius_def Math_max3_def minus_num_def
      sqrt_less_iff_square handleInteraction3D_def resetGlow_def grabBody_def hoverGlow_def
      checkSnapping_def snapMatch_def Let_def)

section \<open>Pinned points\<close>

lemma pinnedFrame_refl [simp]: "pinnedFrame h h"
  by (simp add: pinnedFrame_def)

lemma pinnedFrame_trans: "pinnedFrame h h' \<Longrightarrow> pinnedFrame h' h'' \<Longrightarrow> pinnedFrame h h''"
  by (simp add: pinnedFrame_def)

lemma pinnedFrame_upd:
  "isPinned p = isPinned (h r) \<Longrightarrow> (isPinned (h r) \<Longrightarrow> p = h r) \<Longrightarrow> pinnedFrame h (h(r := p))"
  by (simp add: pinnedFrame_def)

lemma integratePoint_pinned: "isPinned (integratePoint s w ht p) = isPinned p"
  by (simp add: integratePoint_def Let_def)

lemma integratePoint_fix: "isPinned p \<Longrightarrow> integratePoint s w ht p = p"
  by (simp add: integratePoint_def)

lemma pinnedFrame_integratePoints: "pinnedFrame h (integratePoints s w ht rs h)"
proof (induction rs arbitrary: h)
  case Nil
  show ?case by simp
next
  case (Cons r rs)
  have "pinnedFrame h (h(r := integratePoint s w ht (h r)))"
    by (rule pinnedFrame_upd) (simp_all add: integratePoint_pinned integratePoint_fix)
  then show ?case
    using Cons.IH by (auto intro: pinnedFrame_trans)
qed

lemma pinnedFrame_relaxStick: "pinnedFrame h (snd (relaxStick s i (stks, h)))"
proof -
  have step: "\<And>h r p. \<not> isPinned (h r) \<Longrightarrow> isPinned p = isPinned (h r) \<Longrightarrow>
      pinnedFrame h (h(r := p))"
    by (simp add: pinnedFrame_def)
  show ?thesis
    by (auto simp add: relaxStick_def Let_def intro!: step intro: pinnedFrame_trans [OF step step])
qed

lemma pinnedFrame_relaxPass: "pinnedFrame (snd st) (snd (relaxPass s n st))"
proof (induction n arbitrary: st)
  case 0
  show ?case by simp
next
  case (Suc n)
  have "pinnedFrame (snd st) (snd (relaxStick s n st))"
    using pinnedFrame_relaxStick [of "snd st" s n "fst st"] by simp
  then show ?case
    using Suc.IH [of "relaxStick s n st"] by (auto intro: pinnedFrame_trans)
qed

lemma pinnedFrame_relaxIterations: "pinnedFrame (snd st) (snd (relaxIterations s n st))"
proof (induction n arbitrary: st)
  case 0
  show ?case by simp
next
  case (Suc n)
  show ?case
    using pinnedFrame_relaxPass [of st s "length (fst st)"]
      Suc.IH [of "relaxPass s (length (fst st)) st"]
    by (auto intro: pinnedFrame_trans)
qed

lemma pinnedFrame_updateObjects: "pinnedFrame h (snd (updateObjects s w ht objs h))"
proof (induction objs arbitrary: h)
  case Nil
  show ?case by simp
next
  case (Cons obj objs)
  show ?case
  proof (cases "type_object obj = ''devil_horn''")
    case True
    then show ?thesis using Cons.IH [of h] by (simp add: case_prod_beta)
  next
    case False
    define h1 where "h1 = integratePoints s w ht (points obj) h"
    define st where "st = relaxIterations s (solverIterations s) (sticks obj, h1)"
    have a: "pinnedFrame h h1" by (simp add: h1_def pinnedFrame_integratePoints)
    have b: "pinnedFrame h1 (snd st)"
      using pinnedFrame_relaxIterations [of "(sticks obj, h1)"] by (simp add: st_def)
    have c: "pinnedFrame (snd st) (snd (updateObjects s w ht objs (snd st)))" by (rule Cons.IH)
    have "snd (updateObjects s w ht (obj # objs) h) = snd (updateObjects s w ht objs (snd st))"
      using False by (simp add: h1_def st_def Let_def case_prod_beta)
    with a b c show ?thesis by (auto intro: pinnedFrame_trans)
  qed
qed

lemma applySprings_other: "r \<notin> point ` snd ` set es \<Longrightarrow> applySprings es h r = h r"
  by (induction es arbitrary: h) (simp_all add: Let_def)

lemma mouseSprings_update [simp]: "mouseSprings (update s w ht) = mouseSprings s"
  by (simp add: update_def Let_def split: prod.splits)

lemma heap_update:
  "heap (update s w ht) =
   applySprings (mouseSprings s) (snd (updateObjects s w ht (objects s) (heap s)))"
  by (simp add: update_def Let_def split: prod.splits)

lemma update_pinned:
  assumes "isPinned (heap s r)" and "r \<notin> point ` snd ` set (mouseSprings s)"
  shows "heap (update s w ht) r = heap s r"
  using assms pinnedFrame_updateObjects [of "heap s" s w ht "objects s"]
  by (simp add: heap_update applySprings_other pinnedFrame_def)

text \<open>
  Claim C2, as amended. A pinned point to which no interaction spring is attached is the
  same point, in position and in every other field, after any number of ticks, whatever
  the viewport sizes, gravity, the sticks that end in it and the boundary clamps do.
\<close>

theorem pinned_point_unchanged:
  assumes "isPinned (heap s r)" and "r \<notin> point ` snd ` set (mouseSprings s)"
  shows "heap (updates s sizes) r = heap s r"
  using assms
proof (induction sizes arbitrary: s)
  case Nil
  then show ?case by (simp add: updates_def)
next
  case (Cons wh sizes)
  obtain w ht where wh: "wh = (w, ht)" by (cases wh)
  have "heap (updates (update s w ht) sizes) r = heap (update s w ht) r"
    using Cons.prems by (intro Cons.IH) (simp_all add: update_pinned)
  then show ?case
    using Cons.prems by (simp add: updates_def wh update_pinned)
qed

theorem pinned_point_unchanged_witness:
  "isPinned (heap pinnedPlant 0)
   \<and> 0 \<notin> point ` snd ` set (mouseSprings pinnedPlant)
   \<and> heap (updates pinnedPlant [(Fin 800, Fin 600), (Fin 1024, Fin 768)]) 0 = heap pinnedPlant 0"
proof -
  have hyps: "isPinned (heap pinnedPlant 0)" "0 \<notin> point ` snd ` set (mouseSprings pinnedPlant)"
    by (simp_all add: pinnedPlant_def emptySystem_def newPoint_def)
  from hyps pinned_point_unchanged [OF hyps] show ?thesis by blast
qed

lemma pinchedPlant_facts:
  "mouseSprings pinchedPlant = [(0, \<lparr>point = 0, anchorX = Fin 200, anchorY = Fin 100\<rparr>)]"
  "heap pinchedPlant = heap pinnedPlant"
  "objects pinchedPlant = objects pinnedPlant"
  by (simp_all add: pinchedPlant_def pinnedPlant_def emptySystem_def handleInteraction_def
      setAnchor_def newPoint_def minus_num_def Let_def)

text \<open>Claim C2 as stated covers a pinned point with a spring attached; \<open>handleInteraction\<close>
  attaches a spring to the pinned base, and the tick then pulls the base a fifth of the
  way to the anchor.\<close>

theorem pinned_point_spring_counterexample:
  "isPinned (heap pinchedPlant 0)
   \<and> px (heap pinchedPlant 0) = Fin 100
   \<and> px (heap (update pinchedPlant (Fin 800) (Fin 600)) 0) = Fin 120"
proof -
  have p: "heap pinchedPlant 0 = newPoint (Fin 100) (Fin 100) True"
    by (simp add: pinchedPlant_facts pinnedPlant_def)
  then have pin: "isPinned (heap pinchedPlant 0)" by (simp add: newPoint_def)
  have "snd (updateObjects pinchedPlant (Fin 800) (Fin 600) (objects pinchedPlant) (heap pinchedPlant)) 0
        = heap pinchedPlant 0"
    using pin pinnedFrame_updateObjects [of "heap pinchedPlant" pinchedPlant "Fin 800" "Fin 600"
        "objects pinchedPlant"]
    by (simp add: pinnedFrame_def)
  then show ?thesis
    by (simp add: heap_update pinchedPlant_facts(1) p newPoint_def minus_num_def Let_def)
qed

section \<open>Breaking sticks\<close>

lemma subseq_remove_nth: "subseq (take i xs @ drop (Suc i) xs) xs"
proof -
  have "subseq (drop (Suc i) xs) (drop i xs)"
    by (cases "i < length xs") (auto simp add: Cons_nth_drop_Suc [symmetric])
  then have "subseq (take i xs @ drop (Suc i) xs) (take i xs @ drop i xs)"
    by (simp only: subseq_append')
  then show ?thesis by simp
qed

lemma subseq_relaxStick: "subseq (fst (relaxStick s i st)) (fst st)"
  by (simp add: relaxStick_def Let_def subseq_remove_nth)

lemma subseq_relaxPass: "subseq (fst (relaxPass s n st)) (fst st)"
proof (induction n arbitrary: st)
  case 0
  show ?case by simp
next
  case (Suc n)
  have "subseq (fst (relaxPass s n (relaxStick s n st))) (fst (relaxStick s n st))"
    by (rule Suc.IH)
  then show ?case
    using subseq_relaxStick [of s n st] subseq_order.order_trans by fastforce
qed

lemma subseq_relaxIterations: "subseq (fst (relaxIterations s n st)) (fst st)"
proof (induction n arbitrary: st)
  case 0
  show ?case by simp
next
  case (Suc n)
  have "subseq (fst (relaxIterations s n (relaxPass s (length (fst st)) st)))
          (fst (relaxPass s (length (fst st)) st))"
    by (rule Suc.IH)
  then show ?case
    using subseq_relaxPass [of s "length (fst st)" st] subseq_order.order_trans by fastforce
qed

lemma sticksOnlyRemoved_refl [simp]: "sticksOnlyRemoved obj obj"
  by (simp add: sticksOnlyRemoved_def)

lemma sticksOnlyRemoved_trans:
  "sticksOnlyRemoved a b \<Longrightarrow> sticksOnlyRemoved b c \<Longrightarrow> sticksOnlyRemoved a c"
  unfolding sticksOnlyRemoved_def
  using subseq_order.order_trans [of "sticks c" "sticks b" "sticks a"] by simp

lemma updateObjects_sticks:
  "list_all2 sticksOnlyRemoved objs (fst (updateObjects s w ht objs h))"
proof (induction objs arbitrary: h)
  case Nil
  show ?case by simp
next
  case (Cons obj objs)
  show ?case
  proof (cases "type_object obj = ''devil_horn''")
    case True
    then show ?thesis using Cons.IH [of h] by (simp add: case_prod_beta)
  next
    case False
    define h1 where "h1 = integratePoints s w ht (points obj) h"
    define st where "st = relaxIterations s (solverIterations s) (sticks obj, h1)"
    have "subseq (fst st) (sticks obj)"
      using subseq_relaxIterations [of s "solverIterations s" "(sticks obj, h1)"]
      by (simp add: st_def)
    then have "sticksOnlyRemoved obj (obj\<lparr>sticks := fst st\<rparr>)"
      by (simp add: sticksOnlyRemoved_def)
    moreover have "fst (updateObjects s w ht (obj # objs) h) =
        obj\<lparr>sticks := fst st\<rparr> # fst (updateObjects s w ht objs (snd st))"
      using False by (simp add: h1_def st_def Let_def case_prod_beta)
    ultimately show ?thesis using Cons.IH [of "snd st"] by simp
  qed
qed

lemma objects_update:
  "objects (update s w ht) = fst (updateObjects s w ht (objects s) (heap s))"
  by (simp add: update_def Let_def case_prod_beta)

lemma objects_handleInteraction [simp]:
  "objects (handleInteraction s handId x y isPinching) = objects s"
  by (simp add: handleInteraction_def Let_def)

lemma objects_handleInteraction3D [simp]:
  "objects (handleInteraction3D s handId x y z isGrabbing r) = objects s"
  by (simp add: handleInteraction3D_def Let_def split: option.splits)

lemma objects_crumple [simp]: "objects (crumple rnd s x y radius intensity) = objects s"
  by (simp add: crumple_def)

lemma objects_fold_sys [simp]: "objects (fold_sys s x y radius vel) = objects s"
  by (simp add: fold_sys_def)

lemma list_all2_sticksOnlyRemoved_refl [simp]: "list_all2 sticksOnlyRemoved objs objs"
  by (simp add: list_all2_refl)

lemma perform_sticks: "list_all2 sticksOnlyRemoved (objects s) (objects (perform s op))"
  by (cases op) (simp_all add: objects_update updateObjects_sticks)

lemma performAll_sticks: "list_all2 sticksOnlyRemoved (objects s) (objects (performAll s ops))"
proof (induction ops arbitrary: s)
  case Nil
  show ?case by (simp add: performAll_def)
next
  case (Cons op ops)
  have "list_all2 sticksOnlyRemoved (objects (perform s op)) (objects (performAll (perform s op) ops))"
    by (rule Cons.IH)
  with perform_sticks [of s op]
  have "list_all2 sticksOnlyRemoved (objects s) (objects (performAll (perform s op) ops))"
    by (rule list_all2_trans [rotated]) (rule sticksOnlyRemoved_trans)
  then show ?case by (simp add: performAll_def)
qed



lemma subseq_set: "subseq xs ys \<Longrightarrow> set xs \<subseteq> set ys"
proof
  fix x
  assume "subseq xs ys" and "x \<in> set xs"
  then obtain y where "y \<in> set ys" and "x = y" by (rule list_emb_set)
  then show "x \<in> set ys" by simp
qed

lemma removed_nth_not_member:
  assumes "distinct xs" and "i < length xs"
  shows "xs ! i \<notin> set (take i xs @ drop (Suc i) xs)"
proof -
  have "xs = take i xs @ xs ! i # drop (Suc i) xs"
    using assms(2) by (rule id_take_nth_drop)
  then have "distinct (take i xs @ xs ! i # drop (Suc i) xs)"
    using assms(1) by simp
  then show ?thesis by auto
qed


lemma relaxPass_relaxDown:
  "k \<le> n \<Longrightarrow> relaxPass s n st = relaxPass s (n - k) (relaxDown s k n st)"
proof (induction k arbitrary: n st)
  case 0
  show ?case by simp
next
  case (Suc k)
  then obtain m where n: "n = Suc m" and km: "k \<le> m" by (cases n) simp_all
  from Suc.IH [OF km, of "relaxStick s m st"] show ?case by (simp add: n)
qed

lemma relaxIterations_add:
  "relaxIterations s (a + b) st = relaxIterations s b (relaxIterations s a st)"
  by (induction a arbitrary: st) simp_all

lemma length_relaxStick: "j < length (fst st) \<Longrightarrow> j \<le> length (fst (relaxStick s j st))"
  by (auto simp add: relaxStick_def Let_def)

lemma length_relaxDown:
  "n \<le> length (fst st) \<Longrightarrow> k \<le> n \<Longrightarrow> n - k \<le> length (fst (relaxDown s k n st))"
proof (induction k arbitrary: n st)
  case 0
  then show ?case by simp
next
  case (Suc k)
  then obtain m where n: "n = Suc m" and km: "k \<le> m" by (cases n) simp_all
  have "m \<le> length (fst (relaxStick s m st))"
    using Suc.prems(1) by (intro length_relaxStick) (simp add: n)
  from Suc.IH [OF this km] show ?case by (simp add: n)
qed

lemma subseq_relaxDown: "subseq (fst (relaxDown s k n st)) (fst st)"
proof (induction k arbitrary: n st)
  case 0
  show ?case by simp
next
  case (Suc k)
  have "subseq (fst (relaxDown s k (n - 1) (relaxStick s (n - 1) st))) (fst (relaxStick s (n - 1) st))"
    by (rule Suc.IH)
  moreover have "subseq (fst (relaxStick s (n - 1) st)) (fst st)"
    by (rule subseq_relaxStick)
  ultimately have "subseq (fst (relaxDown s k (n - 1) (relaxStick s (n - 1) st))) (fst st)"
    by (rule subseq_order.order_trans)
  then show ?case by simp
qed

lemma subseq_distinct: "subseq xs ys \<Longrightarrow> distinct ys \<Longrightarrow> distinct xs"
proof (induction rule: list_emb.induct)
  case (list_emb_Nil ys)
  show ?case by simp
next
  case (list_emb_Cons xs ys y)
  then show ?case by simp
next
  case (list_emb_Cons2 x y xs ys)
  then have "set xs \<subseteq> set ys" by (intro subseq_set)
  with list_emb_Cons2 show ?case by auto
qed

lemma updateObjects_nth:
  "i < length objs \<Longrightarrow>
   fst (updateObjects s w ht objs h) ! i =
     (if type_object (objs ! i) = ''devil_horn'' then objs ! i
      else (objs ! i)\<lparr>sticks := fst (relaxIterations s (solverIterations s)
              (sticks (objs ! i),
               integratePoints s w ht (points (objs ! i))
                 (snd (updateObjects s w ht (take i objs) h))))\<rparr>)"
proof (induction objs arbitrary: i h)
  case Nil
  then show ?case by simp
next
  case (Cons obj objs)
  show ?case
  proof (cases i)
    case 0
    then show ?thesis by (simp add: case_prod_beta Let_def)
  next
    case (Suc j)
    with Cons.prems have j: "j < length objs" by simp
    show ?thesis
      using Cons.IH [OF j] by (simp add: Suc case_prod_beta Let_def)
  qed
qed


lemma sticks_update_nth:
  assumes "i < length (objects s)" and "type_object (objects s ! i) \<noteq> ''devil_horn''"
  shows "sticks (objects (update s width height) ! i) =
         fst (relaxIterations s (solverIterations s) (relaxStart s width height i))"
  using assms by (simp add: objects_update updateObjects_nth relaxStart_def)

lemma length_objects_performAll: "length (objects (performAll s ops)) = length (objects s)"
  using performAll_sticks [of s ops] by (simp add: list_all2_lengthD)

lemma length_objects_update: "length (objects (update s width height)) = length (objects s)"
  using updateObjects_sticks [of "objects s" s width height "heap s"]
  by (simp add: objects_update list_all2_lengthD)

lemma sticks_performAll_nth:
  assumes "i < length (objects s)"
  shows "subseq (sticks (objects (performAll s ops) ! i)) (sticks (objects s ! i))"
proof -
  have "list_all2 sticksOnlyRemoved (objects s) (objects (performAll s ops))"
    by (rule performAll_sticks)
  from this assms have "sticksOnlyRemoved (objects s ! i) (objects (performAll s ops) ! i)"
    by (rule list_all2_nthD)
  then show ?thesis by (simp add: sticksOnlyRemoved_def)
qed

text \<open>
  Claim C4. Take an object of the tick that is not a devil horn, one of the passes that
  \<open>update\<close> runs over its sticks (\<open>p\<close> passes have gone before), and the moment of that
  pass when \<open>k\<close> sticks have been visited and position \<open>sIdx\<close> is next. If the distance
  between the ends of the stick there exceeds its rest length times the breaking
  threshold, then the visit removes exactly that position from the list and leaves every
  point where it is; the list at the end of that pass, and the stick list of the object
  after \<open>update\<close>, are subsequences of the list without that position; when the sticks
  of the object are pairwise different, the stick is in neither, nor in the object's list
  after any further run of ticks, pinches, grabs, crumples and folds; and such a run
  keeps the objects in place and only ever takes sticks away.
\<close>

theorem stick_breaking:
  assumes i: "i < length (objects s)"
    and nh: "type_object (objects s ! i) \<noteq> ''devil_horn''"
    and p: "p < solverIterations s"
    and st0: "st0 = relaxIterations s p (relaxStart s width height i)"
    and k: "k < length (fst st0)"
    and mid: "(stks, h) = relaxDown s k (length (fst st0)) st0"
    and sIdx: "sIdx = length (fst st0) - Suc k"
    and over: "Math_sqrt
           ((px (h (p1 (stks ! sIdx))) - px (h (p0 (stks ! sIdx)))) *
            (px (h (p1 (stks ! sIdx))) - px (h (p0 (stks ! sIdx)))) +
            (py (h (p1 (stks ! sIdx))) - py (h (p0 (stks ! sIdx)))) *
            (py (h (p1 (stks ! sIdx))) - py (h (p0 (stks ! sIdx)))))
         > length_stick (stks ! sIdx) * breakingThreshold s"
  shows "sIdx < length stks
       \<and> subseq stks (sticks (objects s ! i))
       \<and> relaxStick s sIdx (stks, h) = (take sIdx stks @ drop (Suc sIdx) stks, h)
       \<and> subseq (fst (relaxIterations s (Suc p) (relaxStart s width height i)))
            (take sIdx stks @ drop (Suc sIdx) stks)
       \<and> subseq (sticks (objects (update s width height) ! i))
            (take sIdx stks @ drop (Suc sIdx) stks)
       \<and> (distinct (sticks (objects s ! i)) \<longrightarrow>
            stks ! sIdx \<notin> set (fst (relaxIterations s (Suc p) (relaxStart s width height i)))
            \<and> stks ! sIdx \<notin> set (sticks (objects (update s width height) ! i))
            \<and> (\<forall>ops. stks ! sIdx \<notin>
                  set (sticks (objects (performAll (update s width height) ops) ! i))))
       \<and> (\<forall>ops. length (objects (performAll (update s width height) ops)) = length (objects s)
            \<and> subseq (sticks (objects (performAll (update s width height) ops) ! i))
                 (sticks (objects (update s width height) ! i)))"
proof -
  define start where "start = relaxStart s width height i"
  define n where "n = length (fst st0)"
  define rest where "rest = take sIdx stks @ drop (Suc sIdx) stks"
  define u where "u = update s width height"
  have kn: "k \<le> n" and suc: "n - k = Suc sIdx"
    using k sIdx by (simp_all add: n_def)
  have midst: "relaxDown s k n st0 = (stks, h)"
    using mid by (simp add: n_def)
  have "n - k \<le> length (fst (relaxDown s k n st0))"
    by (rule length_relaxDown) (simp_all add: n_def kn [unfolded n_def])
  then have len: "sIdx < length stks"
    by (simp add: midst suc)
  have "subseq (fst (relaxDown s k n st0)) (fst st0)"
    by (rule subseq_relaxDown)
  moreover have "subseq (fst st0) (fst start)"
    unfolding st0 start_def by (rule subseq_relaxIterations)
  ultimately have "subseq (fst (relaxDown s k n st0)) (fst start)"
    by (rule subseq_order.order_trans)
  then have sub0: "subseq stks (sticks (objects s ! i))"
    by (simp add: midst start_def relaxStart_def)
  have step: "relaxStick s sIdx (stks, h) = (rest, h)"
    using over by (simp add: relaxStick_def Let_def rest_def)
  have "relaxPass s n st0 = relaxPass s (n - k) (relaxDown s k n st0)"
    using kn by (rule relaxPass_relaxDown)
  then have pass: "relaxPass s n st0 = relaxPass s sIdx (rest, h)"
    by (simp add: suc midst step)
  define e where "e = relaxIterations s (Suc p) start"
  have "relaxIterations s (p + 1) start = relaxIterations s 1 (relaxIterations s p start)"
    by (rule relaxIterations_add)
  then have endpass: "e = relaxPass s sIdx (rest, h)"
    using pass by (simp add: e_def st0 [symmetric, unfolded start_def [symmetric]] n_def)
  have sub1: "subseq (fst e) rest"
    unfolding endpass using subseq_relaxPass [of s sIdx "(rest, h)"] by simp
  have "solverIterations s = Suc p + (solverIterations s - Suc p)"
    using p by simp
  then have "relaxIterations s (solverIterations s) start =
      relaxIterations s (Suc p + (solverIterations s - Suc p)) start"
    by simp
  also have "\<dots> = relaxIterations s (solverIterations s - Suc p) e"
    unfolding e_def by (rule relaxIterations_add)
  finally have "subseq (fst (relaxIterations s (solverIterations s) start)) (fst e)"
    using subseq_relaxIterations [of s "solverIterations s - Suc p" e] by simp
  from this sub1 have "subseq (fst (relaxIterations s (solverIterations s) start)) rest"
    by (rule subseq_order.order_trans)
  then have sub2: "subseq (sticks (objects u ! i)) rest"
    using sticks_update_nth [OF i nh, of width height] by (simp add: u_def start_def)
  have iu: "i < length (objects u)"
    using i by (simp add: u_def length_objects_update)
  have later: "subseq (sticks (objects (performAll u ops) ! i)) (sticks (objects u ! i))" for ops
    using iu by (rule sticks_performAll_nth)
  have lens: "length (objects (performAll u ops)) = length (objects s)" for ops
    by (simp add: length_objects_performAll u_def length_objects_update)
  have gone: "stks ! sIdx \<notin> set (fst e)
      \<and> stks ! sIdx \<notin> set (sticks (objects u ! i))
      \<and> (\<forall>ops. stks ! sIdx \<notin> set (sticks (objects (performAll u ops) ! i)))"
    if d: "distinct (sticks (objects s ! i))"
  proof -
    from sub0 d have "distinct stks" by (rule subseq_distinct)
    then have out: "stks ! sIdx \<notin> set rest"
      unfolding rest_def using len by (rule removed_nth_not_member)
    have a: "stks ! sIdx \<notin> set (fst e)"
      using subseq_set [OF sub1] out by (rule contra_subsetD)
    have b: "stks ! sIdx \<notin> set (sticks (objects u ! i))"
      using subseq_set [OF sub2] out by (rule contra_subsetD)
    have c: "stks ! sIdx \<notin> set (sticks (objects (performAll u ops) ! i))" for ops
      using subseq_set [OF later [of ops]] b by (rule contra_subsetD)
    from a b c show ?thesis by simp
  qed
  show ?thesis
    using len sub0 step sub1 sub2 gone later lens
    unfolding e_def start_def rest_def u_def by simp
qed

lemma overstretched_start:
  "fst (relaxStart overstretched (Fin 1000) (Fin 1000) 0) = [shortStick]"
  "px (snd (relaxStart overstretched (Fin 1000) (Fin 1000) 0) 0) = Fin 100"
  "py (snd (relaxStart overstretched (Fin 1000) (Fin 1000) 0) 0) = Fin 100.5"
  "px (snd (relaxStart overstretched (Fin 1000) (Fin 1000) 0) (Suc 0)) = Fin 200"
  "py (snd (relaxStart overstretched (Fin 1000) (Fin 1000) 0) (Suc 0)) = Fin 100.5"
  by (simp_all add: relaxStart_def overstretched_def emptySystem_def newPoint_def
      integratePoint_def Let_def minus_num_def)

theorem stick_breaking_witness:
  "0 < length (objects overstretched)
   \<and> type_object (objects overstretched ! 0) \<noteq> ''devil_horn''
   \<and> 0 < solverIterations overstretched
   \<and> fst (relaxStart overstretched (Fin 1000) (Fin 1000) 0) = [shortStick]
   \<and> Math_sqrt
        ((px (snd (relaxStart overstretched (Fin 1000) (Fin 1000) 0) (p1 shortStick)) -
          px (snd (relaxStart overstretched (Fin 1000) (Fin 1000) 0) (p0 shortStick))) *
         (px (snd (relaxStart overstretched (Fin 1000) (Fin 1000) 0) (p1 shortStick)) -
          px (snd (relaxStart overstretched (Fin 1000) (Fin 1000) 0) (p0 shortStick))) +
         (py (snd (relaxStart overstretched (Fin 1000) (Fin 1000) 0) (p1 shortStick)) -
          py (snd (relaxStart overstretched (Fin 1000) (Fin 1000) 0) (p0 shortStick))) *
         (py (snd (relaxStart overstretched (Fin 1000) (Fin 1000) 0) (p1 shortStick)) -
          py (snd (relaxStart overstretched (Fin 1000) (Fin 1000) 0) (p0 shortStick))))
       > length_stick shortStick * breakingThreshold overstretched
   \<and> distinct (sticks (objects overstretched ! 0))
   \<and> sticks (objects overstretched ! 0) = [shortStick]
   \<and> sticks (objects (update overstretched (Fin 1000) (Fin 1000)) ! 0) = []
   \<and> shortStick \<notin> set (sticks (objects (performAll (update overstretched (Fin 1000) (Fin 1000))
         [Fold (Fin 0) (Fin 0) (Fin 50) (Fin 1, Fin 1), Update (Fin 1000) (Fin 1000)]) ! 0))"
proof -
  define start where "start = relaxStart overstretched (Fin 1000) (Fin 1000) 0"
  note sv = overstretched_start [folded start_def]
  have objs: "0 < length (objects overstretched)"
    "type_object (objects overstretched ! 0) \<noteq> ''devil_horn''"
    "0 < solverIterations overstretched"
    by (simp_all add: overstretched_def emptySystem_def)
  have d: "distinct (sticks (objects overstretched ! 0))"
    "sticks (objects overstretched ! 0) = [shortStick]"
    by (simp_all add: overstretched_def)
  have st0: "start = relaxIterations overstretched 0 (relaxStart overstretched (Fin 1000) (Fin 1000) 0)"
    by (simp add: start_def)
  have k: "0 < length (fst start)" by (simp add: sv)
  have mid: "([shortStick], snd start) = relaxDown overstretched 0 (length (fst start)) start"
    using sv(1) by (cases start) simp
  have sIdx: "(0::nat) = length (fst start) - Suc 0" by (simp add: sv)
  have over0: "Math_sqrt
        ((px (snd start (p1 shortStick)) - px (snd start (p0 shortStick))) *
         (px (snd start (p1 shortStick)) - px (snd start (p0 shortStick))) +
         (py (snd start (p1 shortStick)) - py (snd start (p0 shortStick))) *
         (py (snd start (p1 shortStick)) - py (snd start (p0 shortStick))))
       > length_stick shortStick * breakingThreshold overstretched"
    by (simp add: shortStick_def sv overstretched_def emptySystem_def minus_num_def
        less_sqrt_iff_square)
  then have over: "Math_sqrt
        ((px (snd start (p1 ([shortStick] ! 0))) - px (snd start (p0 ([shortStick] ! 0)))) *
         (px (snd start (p1 ([shortStick] ! 0))) - px (snd start (p0 ([shortStick] ! 0)))) +
         (py (snd start (p1 ([shortStick] ! 0))) - py (snd start (p0 ([shortStick] ! 0)))) *
         (py (snd start (p1 ([shortStick] ! 0))) - py (snd start (p0 ([shortStick] ! 0)))))
       > length_stick ([shortStick] ! 0) * breakingThreshold overstretched"
    by simp
  note t = stick_breaking [OF objs st0 k mid sIdx over]
  from t have "subseq (sticks (objects (update overstretched (Fin 1000) (Fin 1000)) ! 0)) []"
    by simp
  then have a: "sticks (objects (update overstretched (Fin 1000) (Fin 1000)) ! 0) = []"
    by simp
  from t d(1) have b: "shortStick \<notin> set (sticks (objects (performAll
         (update overstretched (Fin 1000) (Fin 1000))
         [Fold (Fin 0) (Fin 0) (Fin 50) (Fin 1, Fin 1), Update (Fin 1000) (Fin 1000)]) ! 0))"
    by simp
  from objs sv(1) over0 d a b show ?thesis
    unfolding start_def by blast
qed

section \<open>Sticks of length zero\<close>

text \<open>Once a coordinate is NaN, relaxation leaves it NaN.\<close>

lemma NaN_arith [simp]: "NaN - a = NaN" "a - NaN = NaN" "a + NaN = NaN" "a * NaN = NaN"
  by (cases a; simp add: minus_num_def)+

lemma relaxStick_keeps_NaN:
  "px (snd st r) = NaN \<Longrightarrow> px (snd (relaxStick s i st) r) = NaN"
  by (auto simp add: relaxStick_def Let_def)

lemma relaxPass_keeps_NaN:
  "px (snd st r) = NaN \<Longrightarrow> px (snd (relaxPass s n st) r) = NaN"
  by (induction n arbitrary: st) (simp_all add: relaxStick_keeps_NaN)

lemma relaxIterations_keeps_NaN:
  "px (snd st r) = NaN \<Longrightarrow> px (snd (relaxIterations s n st) r) = NaN"
  by (induction n arbitrary: st) (simp_all add: relaxPass_keeps_NaN)

lemma zero_times_nonfinite: "(\<And>r. c \<noteq> Fin r) \<Longrightarrow> Fin 0 * c = NaN"
  by (cases c) auto

lemma relaxStick_coincident:
  assumes "px (h (p0 (stks ! i))) = Fin a" and "px (h (p1 (stks ! i))) = Fin a"
    and "py (h (p0 (stks ! i))) = Fin b" and "py (h (p1 (stks ! i))) = Fin b"
    and "\<not> Fin 0 > length_stick (stks ! i) * breakingThreshold s"
    and "\<not> isPinned (h (p0 (stks ! i)))"
  shows "fst (relaxStick s i (stks, h)) = stks \<and>
         px (snd (relaxStick s i (stks, h)) (p0 (stks ! i))) = NaN"
proof -
  define percent where
    "percent = ((length_stick (stks ! i) - Fin 0) / Fin 0) / Fin 2 * stiffness s"
  have nf: "percent \<noteq> Fin r" for r
    by (cases "length_stick (stks ! i)"; cases "stiffness s")
       (simp_all add: percent_def minus_num_def)
  have off: "Fin 0 * percent = NaN"
    using nf by (rule zero_times_nonfinite)
  show ?thesis
    using assms off
    by (simp add: relaxStick_def Let_def minus_num_def percent_def)
qed

lemma cornered_facts:
  "objects cornered = [\<lparr>id_object = ''car-1'', type_object = ''car'', points = [0, 1],
       sticks = [\<lparr>p0 = 0, p1 = 1, length_stick = Fin 50, isHidden = False\<rparr>]\<rparr>]"
  "mouseSprings cornered = []" "solverIterations cornered = Suc 15"
  "breakingThreshold cornered = Fin 10"
  "integratePoints cornered (Fin 1000) (Fin 1000) [0, 1] (heap cornered) 0 =
     newPoint (Fin 10) (Fin 990) False"
  "integratePoints cornered (Fin 1000) (Fin 1000) [0, 1] (heap cornered) 1 =
     newPoint (Fin 10) (Fin 990) False"
  by (simp_all add: cornered_def emptySystem_def newPoint_def integratePoint_def Let_def
      minus_num_def)

text \<open>
  Claim C3 says that a stick whose ends coincide is skipped. The relaxation loop has no
  such guard: the boundary clamps put both points of the example at \<open>(10, 990)\<close>, the
  distance is 0, the correction factor is infinite, its product with the zero separation
  is NaN, and the x coordinate of the first point is NaN at the end of the tick.
\<close>

theorem coincident_endpoints_become_NaN:
  "px (integratePoints cornered (Fin 1000) (Fin 1000) [0, 1] (heap cornered) 0) = Fin 10
   \<and> px (integratePoints cornered (Fin 1000) (Fin 1000) [0, 1] (heap cornered) 1) = Fin 10
   \<and> py (integratePoints cornered (Fin 1000) (Fin 1000) [0, 1] (heap cornered) 0) = Fin 990
   \<and> py (integratePoints cornered (Fin 1000) (Fin 1000) [0, 1] (heap cornered) 1) = Fin 990
   \<and> px (heap (update cornered (Fin 1000) (Fin 1000)) 0) = NaN"
proof -
  define stks where "stks = [\<lparr>p0 = 0, p1 = 1, length_stick = Fin 50, isHidden = False\<rparr>]"
  define h1 where "h1 = integratePoints cornered (Fin 1000) (Fin 1000) [0, 1] (heap cornered)"
  have pts: "h1 0 = newPoint (Fin 10) (Fin 990) False" "h1 1 = newPoint (Fin 10) (Fin 990) False"
    unfolding h1_def by (rule cornered_facts(5), rule cornered_facts(6))
  then have pts': "h1 (Suc 0) = newPoint (Fin 10) (Fin 990) False" by simp
  have "fst (relaxStick cornered 0 (stks, h1)) = stks \<and>
        px (snd (relaxStick cornered 0 (stks, h1)) (p0 (stks ! 0))) = NaN"
    by (rule relaxStick_coincident [where a = 10 and b = 990])
       (simp_all add: stks_def pts pts' newPoint_def cornered_facts(4))
  then have "px (snd (relaxPass cornered (length (fst (stks, h1))) (stks, h1)) 0) = NaN"
    by (simp add: stks_def)
  then have "px (snd (relaxIterations cornered 15
               (relaxPass cornered (length (fst (stks, h1))) (stks, h1))) 0) = NaN"
    by (rule relaxIterations_keeps_NaN)
  then have "px (snd (relaxIterations cornered (Suc 15) (stks, h1)) 0) = NaN"
    by (simp only: relaxIterations.simps)
  then have "px (heap (update cornered (Fin 1000) (Fin 1000)) 0) = NaN"
    by (simp add: heap_update cornered_facts(1-3) case_prod_beta Let_def stks_def h1_def)
  with pts show ?thesis by (simp add: h1_def newPoint_def)
qed

section \<open>Crumple and fold\<close>

lemma foldPoints_append:
  "foldPoints x y radius vel (as @ bs) h = foldPoints x y radius vel bs (foldPoints x y radius vel as h)"
  by (induction as arbitrary: h) simp_all

lemma foldObjects_visited:
  "foldObjects x y radius vel objs h = foldPoints x y radius vel (visitedPoints objs) h"
  by (induction objs arbitrary: h) (simp_all add: visitedPoints_def foldPoints_append)

lemma foldPoints_at:
  "distinct rs \<Longrightarrow>
   foldPoints x y radius vel rs h q = (if q \<in> set rs then foldPoint x y radius vel (h q) else h q)"
  by (induction rs arbitrary: h) auto

lemma crumplePoints_append:
  "crumplePoints rnd x y radius intensity (as @ bs) st =
   crumplePoints rnd x y radius intensity bs (crumplePoints rnd x y radius intensity as st)"
  by (induction as arbitrary: st) (simp_all add: Let_def)

lemma crumpleObjects_visited:
  "crumpleObjects rnd x y radius intensity objs st =
   crumplePoints rnd x y radius intensity (visitedPoints objs) st"
  by (induction objs arbitrary: st) (simp_all add: visitedPoints_def crumplePoints_append)

lemma crumplePoints_other:
  "q \<notin> set rs \<Longrightarrow> fst (crumplePoints rnd x y radius intensity rs st) q = fst st q"
  by (induction rs arbitrary: st) (simp_all add: Let_def)

lemma crumplePoints_at:
  assumes "distinct rs" and "q \<in> set rs"
    and "(px (fst st q) - x) * (px (fst st q) - x) + (py (fst st q) - y) * (py (fst st q) - y)
           < radius * radius"
  shows "\<exists>k. fst (crumplePoints rnd x y radius intensity rs st) q =
           crumplePoint x y radius intensity (rnd k) (rnd (Suc k)) (fst st q)"
  using assms
proof (induction rs arbitrary: st)
  case Nil
  then show ?case by simp
next
  case (Cons r rs)
  show ?case
  proof (cases "q = r")
    case True
    with Cons.prems have "q \<notin> set rs" by simp
    with True Cons.prems(3) show ?thesis
      by (auto simp add: Let_def crumplePoints_other)
  next
    case False
    with Cons.prems have q: "q \<in> set rs" and d: "distinct rs" by simp_all
    show ?thesis
    proof (cases "(px (fst st r) - x) * (px (fst st r) - x) + (py (fst st r) - y) * (py (fst st r) - y)
           < radius * radius")
      case True
      define st' where "st' = ((fst st)(r := crumplePoint x y radius intensity (rnd (snd st))
                                    (rnd (Suc (snd st))) (fst st r)), Suc (Suc (snd st)))"
      have "fst st' q = fst st q" using False by (simp add: st'_def)
      with Cons.IH [OF d q, of st'] Cons.prems(3)
      have "\<exists>k. fst (crumplePoints rnd x y radius intensity rs st') q =
           crumplePoint x y radius intensity (rnd k) (rnd (Suc k)) (fst st q)"
        by simp
      with True show ?thesis by (simp add: Let_def st'_def)
    next
      case False
      with Cons.IH [OF d q, of st] Cons.prems(3) show ?thesis by (simp add: Let_def)
    qed
  qed
qed


text \<open>
  Claim C10. Let every point belong to one object only, once, and let point \<open>r\<close> belong
  to an object that is not a devil horn. Then \<open>fold\<close> replaces \<open>r\<close> by \<open>foldPoint\<close> of
  it, and \<open>crumple\<close>, when \<open>r\<close> is inside the radius, by \<open>crumplePoint\<close> of it with two
  consecutive random numbers; and both functions commute with setting the pinned flag:
  they displace a pinned point exactly as they displace the same point unpinned. The
  witness moves a pinned point that is 10 away from the centre of an effect of radius 20.
\<close>

theorem manipulators_ignore_pinned:
  assumes "distinct (visitedPoints (objects s))" and "r \<in> set (visitedPoints (objects s))"
  shows "heap (fold_sys s x y radius vel) r = foldPoint x y radius vel (heap s r)
       \<and> ((px (heap s r) - x) * (px (heap s r) - x) + (py (heap s r) - y) * (py (heap s r) - y)
              < radius * radius \<longrightarrow>
            (\<exists>k. heap (crumple rnd s x y radius intensity) r =
                   crumplePoint x y radius intensity (rnd k) (rnd (Suc k)) (heap s r)))
       \<and> foldPoint x y radius vel ((heap s r)\<lparr>isPinned := pinned\<rparr>) =
           (foldPoint x y radius vel (heap s r))\<lparr>isPinned := pinned\<rparr>
       \<and> crumplePoint x y radius intensity r1 r2 ((heap s r)\<lparr>isPinned := pinned\<rparr>) =
           (crumplePoint x y radius intensity r1 r2 (heap s r))\<lparr>isPinned := pinned\<rparr>"
proof (intro conjI impI)
  show "heap (fold_sys s x y radius vel) r = foldPoint x y radius vel (heap s r)"
    using assms by (simp add: fold_sys_def foldObjects_visited foldPoints_at)
next
  assume "(px (heap s r) - x) * (px (heap s r) - x) + (py (heap s r) - y) * (py (heap s r) - y)
              < radius * radius"
  then show "\<exists>k. heap (crumple rnd s x y radius intensity) r =
                   crumplePoint x y radius intensity (rnd k) (rnd (Suc k)) (heap s r)"
    using crumplePoints_at [OF assms, of "(heap s, 0)" x y radius rnd intensity]
    by (simp add: crumple_def crumpleObjects_visited)
next
  show "foldPoint x y radius vel ((heap s r)\<lparr>isPinned := pinned\<rparr>) =
           (foldPoint x y radius vel (heap s r))\<lparr>isPinned := pinned\<rparr>"
    by (simp add: foldPoint_def Let_def)
next
  show "crumplePoint x y radius intensity r1 r2 ((heap s r)\<lparr>isPinned := pinned\<rparr>) =
           (crumplePoint x y radius intensity r1 r2 (heap s r))\<lparr>isPinned := pinned\<rparr>"
    by (simp add: crumplePoint_def Let_def)
qed

theorem manipulators_ignore_pinned_witness:
  "distinct (visitedPoints (objects pinnedPlant))
   \<and> 0 \<in> set (visitedPoints (objects pinnedPlant))
   \<and> isPinned (heap pinnedPlant 0)
   \<and> px (heap pinnedPlant 0) = Fin 100
   \<and> px (heap (fold_sys pinnedPlant (Fin 90) (Fin 100) (Fin 20) (Fin 0, Fin 0)) 0) = Fin 99.25
   \<and> px (heap (crumple (\<lambda>k. 0.5) pinnedPlant (Fin 90) (Fin 100) (Fin 20) (Fin 1.5)) 0) = Fin 99.25"
proof -
  have hyps: "distinct (visitedPoints (objects pinnedPlant))"
    "0 \<in> set (visitedPoints (objects pinnedPlant))"
    by (simp_all add: visitedPoints_def pinnedPlant_def)
  have p: "heap pinnedPlant 0 = newPoint (Fin 100) (Fin 100) True"
    by (simp add: pinnedPlant_def)
  show ?thesis
    using hyps manipulators_ignore_pinned [OF hyps, of "Fin 90" "Fin 100" "Fin 20" "(Fin 0, Fin 0)" "\<lambda>k. 0.5" "Fin 1.5"]
    by (simp add: p newPoint_def foldPoint_def crumplePoint_def Let_def minus_num_def sqrt_100)
qed

end
